theory Spec2Isabelle
  imports Complex_Main
begin

section \<open>Numeric values and errors\<close>

text \<open>
  The statistics of \<^verbatim>\<open>vogel/utils/stats/stats.py\<close> work on one-dimensional numpy arrays of
  floats. An array is a list of reals here: the statistics compute with exact reals (rounding
  and overflow of the 64-bit floats are modelled only for the scaling of a vector, where a
  property depends on them), and zero carries no sign. What numpy does where the reals have no answer is
  kept: a division by zero, the power of a negative base and the root of a negative number give
  an infinity or NaN (with a warning, never an exception), and these values propagate through
  the later arithmetic as IEEE 754 prescribes.
\<close>

datatype npfloat = Fin real | PInf | NInf | NaN

datatype error = IndexError | ValueError | KeyError | ZeroDivisionError | LibraryError

text \<open>Sequencing of computations that may raise: the first exception ends the computation.\<close>

fun err_bind :: "error + 'a \<Rightarrow> ('a \<Rightarrow> error + 'b) \<Rightarrow> error + 'b" where
  "err_bind (Inl e) f = Inl e"
| "err_bind (Inr x) f = f x"

fun np_abs :: "npfloat \<Rightarrow> npfloat" where
  "np_abs (Fin x) = Fin \<bar>x\<bar>"
| "np_abs PInf = PInf"
| "np_abs NInf = PInf"
| "np_abs NaN = NaN"

fun np_add :: "npfloat \<Rightarrow> npfloat \<Rightarrow> npfloat" where
  "np_add (Fin a) (Fin b) = Fin (a + b)"
| "np_add NaN y = NaN"
| "np_add x NaN = NaN"
| "np_add PInf NInf = NaN"
| "np_add NInf PInf = NaN"
| "np_add PInf y = PInf"
| "np_add NInf y = NInf"
| "np_add (Fin a) y = y"

fun np_neg :: "npfloat \<Rightarrow> npfloat" where
  "np_neg (Fin x) = Fin (- x)"
| "np_neg PInf = NInf"
| "np_neg NInf = PInf"
| "np_neg NaN = NaN"

definition np_sub :: "npfloat \<Rightarrow> npfloat \<Rightarrow> npfloat" where
  "np_sub x y = np_add x (np_neg y)"

fun np_mul :: "npfloat \<Rightarrow> npfloat \<Rightarrow> npfloat" where
  "np_mul (Fin a) (Fin b) = Fin (a * b)"
| "np_mul NaN y = NaN"
| "np_mul x NaN = NaN"
| "np_mul (Fin a) PInf = (if a = 0 then NaN else if 0 < a then PInf else NInf)"
| "np_mul (Fin a) NInf = (if a = 0 then NaN else if 0 < a then NInf else PInf)"
| "np_mul PInf (Fin b) = (if b = 0 then NaN else if 0 < b then PInf else NInf)"
| "np_mul NInf (Fin b) = (if b = 0 then NaN else if 0 < b then NInf else PInf)"
| "np_mul PInf PInf = PInf"
| "np_mul NInf NInf = PInf"
| "np_mul PInf NInf = NInf"
| "np_mul NInf PInf = NInf"

fun np_div :: "npfloat \<Rightarrow> npfloat \<Rightarrow> npfloat" where
  "np_div (Fin a) (Fin b) =
     (if b \<noteq> 0 then Fin (a / b) else if a = 0 then NaN else if 0 < a then PInf else NInf)"
| "np_div NaN y = NaN"
| "np_div x NaN = NaN"
| "np_div (Fin a) y = Fin 0"
| "np_div PInf (Fin b) = (if 0 \<le> b then PInf else NInf)"
| "np_div NInf (Fin b) = (if 0 \<le> b then NInf else PInf)"
| "np_div x y = NaN"

fun np_sqrt :: "npfloat \<Rightarrow> npfloat" where
  "np_sqrt (Fin x) = (if x < 0 then NaN else Fin (sqrt x))"
| "np_sqrt PInf = PInf"
| "np_sqrt NInf = NaN"
| "np_sqrt NaN = NaN"

text \<open>
  \<^verbatim>\<open>np.power(x, p)\<close> for a float base and a finite exponent: a negative base has a power
  only for a whole exponent, and \<open>pow(x, 0)\<close> is 1 for every \<open>x\<close>, NaN included.
\<close>

definition whole :: "real \<Rightarrow> bool" where
  "whole p = (p = of_int \<lfloor>p\<rfloor>)"

fun np_power :: "npfloat \<Rightarrow> real \<Rightarrow> npfloat" where
  "np_power (Fin x) p =
     (if 0 < x then Fin (x powr p)
      else if x = 0 then (if 0 < p then Fin 0 else if p = 0 then Fin 1 else PInf)
      else if whole p then Fin (if even \<lfloor>p\<rfloor> then \<bar>x\<bar> powr p else - (\<bar>x\<bar> powr p))
      else NaN)"
| "np_power PInf p = (if 0 < p then PInf else if p = 0 then Fin 1 else Fin 0)"
| "np_power NInf p =
     (if p = 0 then Fin 1 else if p < 0 then Fin 0
      else if whole p \<and> odd \<lfloor>p\<rfloor> then NInf else PInf)"
| "np_power NaN p = (if p = 0 then Fin 1 else NaN)"

section \<open>Array primitives\<close>

text \<open>
  \<^verbatim>\<open>np.argsort(xs)\<close>: the indices that sort \<open>xs\<close> ascending. Equal keys keep their index
  order here (a stable sort); numpy's default sort promises no order among equal keys.
\<close>

definition np_argsort :: "real list \<Rightarrow> nat list" where
  "np_argsort xs = sort_key (\<lambda>i. xs ! i) [0..<length xs]"

text \<open>\<^verbatim>\<open>xs[idx]\<close> for an index array: IndexError when an index is out of bounds.\<close>

definition np_take :: "real list \<Rightarrow> nat list \<Rightarrow> error + real list" where
  "np_take xs idx =
     (if list_all (\<lambda>i. i < length xs) idx then Inr (map (\<lambda>i. xs ! i) idx) else Inl IndexError)"

fun cumsum_from :: "real \<Rightarrow> real list \<Rightarrow> real list" where
  "cumsum_from acc [] = []"
| "cumsum_from acc (x # xs) = (acc + x) # cumsum_from (acc + x) xs"

definition np_cumsum :: "real list \<Rightarrow> real list" where
  "np_cumsum xs = cumsum_from 0 xs"

text \<open>
  An elementwise operation on two one-dimensional arrays. numpy broadcasts an array of length 1
  against the other one; any other pair of different lengths raises ValueError.
\<close>

definition np_binop :: "('a \<Rightarrow> 'b \<Rightarrow> 'c) \<Rightarrow> 'a list \<Rightarrow> 'b list \<Rightarrow> error + 'c list" where
  "np_binop f xs ys =
     (if length xs = length ys then Inr (map2 f xs ys)
      else if length xs = 1 then Inr (map (\<lambda>y. f (hd xs) y) ys)
      else if length ys = 1 then Inr (map (\<lambda>x. f x (hd ys)) xs)
      else Inl ValueError)"

text \<open>\<^verbatim>\<open>xs[-1]\<close>: IndexError on an empty array.\<close>

definition np_last :: "real list \<Rightarrow> error + real" where
  "np_last xs = (if xs = [] then Inl IndexError else Inr (last xs))"

section \<open>weighted\_gini and weighted\_rmse\<close>

text \<open>
  \<^verbatim>\<open>weighted_gini\<close>, statement by statement. \<^verbatim>\<open>xs[1:]\<close> is \<open>drop 1 xs\<close>, \<^verbatim>\<open>xs[:-1]\<close> is
  \<open>butlast xs\<close>, and the builtin \<^verbatim>\<open>sum\<close> is \<open>sum_list\<close>.
\<close>

definition weighted_gini :: "real list \<Rightarrow> real list \<Rightarrow> real list \<Rightarrow> error + npfloat" where
  "weighted_gini weight actual predicted =
     (let sort_index = rev (np_argsort predicted) in
      err_bind (np_take weight sort_index) (\<lambda>weight'.
      err_bind (np_take actual sort_index) (\<lambda>actual'.
      let cumulative_weight = np_cumsum weight' in
      err_bind (np_binop (*) weight' actual') (\<lambda>wa.
      let cumulative_actual = np_cumsum wa in
      err_bind (np_binop (*) (drop 1 cumulative_weight) (butlast cumulative_actual)) (\<lambda>pa.
      let sum_a = sum_list pa in
      err_bind (np_binop (*) (butlast cumulative_weight) (drop 1 cumulative_actual)) (\<lambda>pb.
      let sum_b = sum_list pb in
      err_bind (np_last cumulative_weight) (\<lambda>lw.
      err_bind (np_last cumulative_actual) (\<lambda>la.
      let gini = np_div (Fin (sum_b - sum_a)) (Fin (lw * la)) in
      Inr (np_abs gini)))))))))"

definition weighted_rmse :: "real list \<Rightarrow> real list \<Rightarrow> real list \<Rightarrow> error + npfloat" where
  "weighted_rmse weight actual predicted =
     err_bind (np_binop (-) actual predicted) (\<lambda>d.
     err_bind (np_binop (*) weight (map (\<lambda>x. x ^ 2) d)) (\<lambda>wd.
     Inr (np_sqrt (np_div (Fin (sum_list wd)) (Fin (sum_list weight))))))"

text \<open>
  The formula of the specification for \<^verbatim>\<open>weighted_gini\<close>, over the vectors already
  reordered: \<open>cw i\<close> and \<open>ca i\<close> are the sums of the first \<open>i + 1\<close> weights and weighted
  actuals, \<open>sum_b\<close> pairs \<open>cw (i - 1)\<close> with \<open>ca i\<close> and \<open>sum_a\<close> pairs \<open>cw i\<close> with
  \<open>ca (i - 1)\<close>, for \<open>i\<close> from 1 to \<open>N - 1\<close>.
\<close>

definition gini_formula :: "real list \<Rightarrow> real list \<Rightarrow> npfloat" where
  "gini_formula w a =
     (let N = length w;
          cw = (\<lambda>i. \<Sum>j\<leftarrow>[0..<Suc i]. w ! j);
          ca = (\<lambda>i. \<Sum>j\<leftarrow>[0..<Suc i]. w ! j * a ! j);
          sum_b = (\<Sum>i\<leftarrow>[1..<N]. cw (i - 1) * ca i);
          sum_a = (\<Sum>i\<leftarrow>[1..<N]. cw i * ca (i - 1))
      in np_abs (np_div (Fin (sum_b - sum_a)) (Fin (cw (N - 1) * ca (N - 1)))))"

text \<open>An index list that visits every position once, in descending order of \<open>predicted\<close>.\<close>

definition descending_sort_permutation :: "real list \<Rightarrow> nat list \<Rightarrow> bool" where
  "descending_sort_permutation predicted idx =
     (distinct idx \<and> set idx = {0..<length predicted} \<and>
      sorted (rev (map (\<lambda>i. predicted ! i) idx)))"

text \<open>
  \<^verbatim>\<open>c * predicted\<close> for a scalar \<open>c\<close>: numpy rounds each product to a 64-bit float, to the
  nearest one and to the even one of two nearest (53 significant bits; below \<open>2 powi (-1022)\<close> the
  spacing stays \<open>2 powi (-1074)\<close>). A product beyond the largest float is an infinity in numpy;
  \<open>float64_round\<close> gives the rounded real there, and \<open>finite_products\<close> says that no product
  leaves the range. \<open>same_order\<close> says that two vectors compare alike at every pair of
  positions.
\<close>

definition round_half_even :: "real \<Rightarrow> int" where
  "round_half_even r =
     (let f = \<lfloor>r\<rfloor>; d = r - of_int f
      in if d < 1 / 2 then f else if 1 / 2 < d then f + 1 else if even f then f else f + 1)"

definition float64_round :: "real \<Rightarrow> real" where
  "float64_round x =
     (if x = 0 then 0
      else let e = max (\<lfloor>log 2 \<bar>x\<bar>\<rfloor> - 52) (- 1074)
           in of_int (round_half_even (x / 2 powi e)) * 2 powi e)"

definition float64_max :: real where
  "float64_max = (2 ^ 53 - 1) * 2 ^ 971"

definition float64_mul :: "real \<Rightarrow> real \<Rightarrow> real" where
  "float64_mul c x = float64_round (c * x)"

definition np_scale :: "real \<Rightarrow> real list \<Rightarrow> real list" where
  "np_scale c xs = map (float64_mul c) xs"

definition finite_products :: "real \<Rightarrow> real list \<Rightarrow> bool" where
  "finite_products c xs = list_all (\<lambda>x. \<bar>float64_mul c x\<bar> \<le> float64_max) xs"

definition same_order :: "real list \<Rightarrow> real list \<Rightarrow> bool" where
  "same_order xs ys =
     (length xs = length ys \<and>
      list_all (\<lambda>i. list_all (\<lambda>j. (xs ! i \<le> xs ! j) = (ys ! i \<le> ys ! j)) [0..<length xs])
        [0..<length xs])"

text \<open>The 64-bit float nearest to one tenth, the value of the literal \<^verbatim>\<open>0.1\<close>.\<close>

definition float64_tenth :: real where "float64_tenth = 3602879701896397 / 2 ^ 55"

section \<open>The Hosmer-Lemeshow statistic for Tweedie outcomes\<close>

text \<open>
  \<^verbatim>\<open>predicted_temp = predicted.copy(); predicted_temp[predicted_temp <= 0] = .0000001\<close>,
  as a value: the clamped copy of \<open>predicted\<close>.
\<close>

definition epsilon :: real where
  "epsilon = 1 / 10000000"

definition clamp_eps :: "real list \<Rightarrow> real list" where
  "clamp_eps predicted = map (\<lambda>x. if x \<le> 0 then epsilon else x) predicted"

text \<open>
  \<^verbatim>\<open>np.searchsorted(qs, v)\<close> (side left) on ascending cut points: the first position whose
  cut point is not below \<open>v\<close>, that is the number of cut points \<open>v\<close> exceeds.
\<close>

definition searchsorted :: "real list \<Rightarrow> real \<Rightarrow> nat" where
  "searchsorted qs v = length (takeWhile (\<lambda>q. q < v) qs)"

record row =
  row_weight :: real
  row_actual :: real
  row_predicted :: real
  row_quantile :: nat

text \<open>
  The weighted quantile estimator of the statistics library
  (\<^verbatim>\<open>DescrStatsW(data, weights).quantile(probs)\<close>) is not part of the repository: it is a
  parameter, from the data, the weights and the probabilities to the cut points.
\<close>

type_synonym quantile_estimator = "real list \<Rightarrow> real list \<Rightarrow> real list \<Rightarrow> error + real list"

text \<open>
  \<^verbatim>\<open>hl_tweedie_df\<close> after its first two lines, with the clamped copy as an argument of
  its own. \<^verbatim>\<open>np.arange(1, bins) * 1 / bins\<close> are the probabilities; the data frame wants
  columns of one length and raises ValueError otherwise.
\<close>

definition hl_tweedie_df_body ::
  "quantile_estimator \<Rightarrow> real list \<Rightarrow> real list \<Rightarrow> real list \<Rightarrow> real list \<Rightarrow> int \<Rightarrow> error + row list" where
  "hl_tweedie_df_body Q weight actual predicted predicted_temp bins =
     err_bind (Q predicted weight (map (\<lambda>i. real_of_int i * 1 / real_of_int bins) [1..bins - 1])) (\<lambda>qs.
     let quantile = map (searchsorted qs) predicted in
     if length weight = length actual \<and> length actual = length predicted_temp
        \<and> length predicted_temp = length quantile
     then Inr (map (\<lambda>(w, a, p, q). \<lparr>row_weight = w, row_actual = a, row_predicted = p, row_quantile = q\<rparr>)
                 (zip weight (zip actual (zip predicted_temp quantile))))
     else Inl ValueError)"

definition hl_tweedie_df ::
  "quantile_estimator \<Rightarrow> real list \<Rightarrow> real list \<Rightarrow> real list \<Rightarrow> int \<Rightarrow> real \<Rightarrow> real \<Rightarrow> error + row list" where
  "hl_tweedie_df Q weight actual predicted bins phi p =
     (let predicted_temp = clamp_eps predicted in
      hl_tweedie_df_body Q weight actual predicted predicted_temp bins)"

text \<open>\<^verbatim>\<open>weighted_average\<close> on two columns of one frame.\<close>

definition weighted_average :: "real list \<Rightarrow> real list \<Rightarrow> npfloat" where
  "weighted_average x w = np_div (Fin (sum_list (map2 (*) x w))) (Fin (sum_list w))"

text \<open>\<^verbatim>\<open>chi_sq_tweedie(phi, p)\<close>: the function it returns, applied to a group of rows.\<close>

definition chi_sq_tweedie :: "real \<Rightarrow> real \<Rightarrow> row list \<Rightarrow> npfloat" where
  "chi_sq_tweedie phi p grp =
     (let wavg_actual = weighted_average (map row_actual grp) (map row_weight grp);
          wavg_predicted = weighted_average (map row_predicted grp) (map row_weight grp)
      in np_div (np_power (np_sub wavg_actual wavg_predicted) 2)
               (np_div (np_mul (Fin phi) (np_power wavg_predicted p))
                       (Fin (sum_list (map row_weight grp)))))"

text \<open>
  \<^verbatim>\<open>df.groupby('quantile')\<close>: one group for each bin id that occurs, in ascending order of the
  id, each with its rows in their order in the frame.
\<close>

definition groupby_quantile :: "row list \<Rightarrow> row list list" where
  "groupby_quantile df =
     map (\<lambda>k. filter (\<lambda>r. row_quantile r = k) df) (sort (remdups (map row_quantile df)))"

text \<open>The \<^verbatim>\<open>sum()\<close> of a pandas series leaves NaN entries out.\<close>

definition pd_sum :: "npfloat list \<Rightarrow> npfloat" where
  "pd_sum xs = foldl np_add (Fin 0) (filter (\<lambda>x. x \<noteq> NaN) xs)"

definition hl_tweedie ::
  "quantile_estimator \<Rightarrow> real list \<Rightarrow> real list \<Rightarrow> real list \<Rightarrow> int \<Rightarrow> real \<Rightarrow> real \<Rightarrow> error + npfloat" where
  "hl_tweedie Q weight actual predicted bins phi p =
     err_bind (hl_tweedie_df Q weight actual predicted bins phi p) (\<lambda>df.
     Inr (pd_sum (map (chi_sq_tweedie phi p) (groupby_quantile df))))"

text \<open>The per-bin chi-square term of the specification, over the reals.\<close>

definition chi_sq_term :: "real \<Rightarrow> real \<Rightarrow> row list \<Rightarrow> real" where
  "chi_sq_term phi p grp =
     (let sw = sum_list (map row_weight grp);
          wavg_actual = sum_list (map (\<lambda>r. row_weight r * row_actual r) grp) / sw;
          wavg_predicted = sum_list (map (\<lambda>r. row_weight r * row_predicted r) grp) / sw
      in (wavg_actual - wavg_predicted) ^ 2 / ((phi * wavg_predicted powr p) / sw))"

text \<open>
  The bins of the specification: the bin with id \<open>k\<close> holds the rows of the frame whose
  \<^verbatim>\<open>quantile\<close> is \<open>k\<close>, in the order of the frame; its weight is the sum of their weights.
\<close>

definition bin_rows :: "row list \<Rightarrow> nat \<Rightarrow> row list" where
  "bin_rows df k = filter (\<lambda>r. row_quantile r = k) df"

definition bin_weight :: "row list \<Rightarrow> nat \<Rightarrow> real" where
  "bin_weight df k = sum_list (map row_weight (bin_rows df k))"

definition positive_bins :: "row list \<Rightarrow> nat set" where
  "positive_bins df = {k \<in> row_quantile ` set df. 0 < bin_weight df k}"

section \<open>Tweedie deviance and the Pearson scale estimate\<close>

text \<open>
  The unit deviance of the statistics library's Tweedie family
  (\<^verbatim>\<open>sm.families.Tweedie(var_power=p).deviance(endog, mu, freq_weights)\<close>) is not part of
  the repository: it is a parameter, from the power, the observations, the means and the
  weights to the deviance.
\<close>

type_synonym tweedie_family = "real \<Rightarrow> real list \<Rightarrow> real list \<Rightarrow> real list \<Rightarrow> error + npfloat"

definition deviance_tweedie_body ::
  "tweedie_family \<Rightarrow> real list \<Rightarrow> real list \<Rightarrow> real list \<Rightarrow> real \<Rightarrow> error + npfloat" where
  "deviance_tweedie_body tweedie actual predicted_temp weight p = tweedie p actual predicted_temp weight"

definition deviance_tweedie ::
  "tweedie_family \<Rightarrow> real list \<Rightarrow> real list \<Rightarrow> real list \<Rightarrow> real \<Rightarrow> error + npfloat" where
  "deviance_tweedie tweedie actual predicted weight p =
     (let predicted_temp = clamp_eps predicted in
      deviance_tweedie_body tweedie actual predicted_temp weight p)"

text \<open>
  \<^verbatim>\<open>pearson_chi_sq_scale_estimate\<close> after its first two lines. \<open>n\<close> and \<open>p\<close> are Python
  integers, so \<^verbatim>\<open>1 / (n - p)\<close> raises ZeroDivisionError when they are equal, before the sum
  is taken.
\<close>

definition pearson_chi_sq_scale_estimate_body ::
  "real list \<Rightarrow> real list \<Rightarrow> real list \<Rightarrow> int \<Rightarrow> real \<Rightarrow> error + npfloat" where
  "pearson_chi_sq_scale_estimate_body actual weight predicted_temp p tweedie_power =
     (let n = int (length actual) in
      err_bind (np_binop (-) actual predicted_temp) (\<lambda>d.
      let se = map (\<lambda>x. x ^ 2) d;
          v = map (\<lambda>x. np_power (Fin x) tweedie_power) predicted_temp in
      if n - p = 0 then Inl ZeroDivisionError
      else
        err_bind (np_binop (*) weight se) (\<lambda>ws.
        err_bind (np_binop (\<lambda>x y. np_div (Fin x) y) ws v) (\<lambda>ratios.
        Inr (np_mul (Fin (1 / real_of_int (n - p))) (foldl np_add (Fin 0) ratios))))))"

definition pearson_chi_sq_scale_estimate ::
  "real list \<Rightarrow> real list \<Rightarrow> real list \<Rightarrow> int \<Rightarrow> real \<Rightarrow> error + npfloat" where
  "pearson_chi_sq_scale_estimate actual weight predicted p tweedie_power =
     (let predicted_temp = clamp_eps predicted in
      pearson_chi_sq_scale_estimate_body actual weight predicted_temp p tweedie_power)"

section \<open>The arrays of the caller\<close>

text \<open>
  The three functions that clamp \<open>predicted\<close> receive references to the caller's arrays. A heap
  holds the arrays, an address is a position in it; \<^verbatim>\<open>copy()\<close> allocates a new array, and the
  assignment through a mask (\<^verbatim>\<open>a[a <= 0] = v\<close>) writes to the array at its address.
\<close>

type_synonym heap = "real list list"

definition ndarray_copy :: "heap \<Rightarrow> nat \<Rightarrow> nat \<times> heap" where
  "ndarray_copy h a = (length h, h @ [h ! a])"

definition masked_assign :: "heap \<Rightarrow> nat \<Rightarrow> (real \<Rightarrow> bool) \<Rightarrow> real \<Rightarrow> heap" where
  "masked_assign h a selected v = h[a := map (\<lambda>x. if selected x then v else x) (h ! a)]"

text \<open>The first two lines the three functions share: the clamped copy and the heap after it.\<close>

definition clamped_copy :: "heap \<Rightarrow> nat \<Rightarrow> nat \<times> heap" where
  "clamped_copy h predicted =
     (let (predicted_temp, h1) = ndarray_copy h predicted
      in (predicted_temp, masked_assign h1 predicted_temp (\<lambda>x. x \<le> 0) epsilon))"

definition hl_tweedie_df_heap ::
  "quantile_estimator \<Rightarrow> heap \<Rightarrow> nat \<Rightarrow> nat \<Rightarrow> nat \<Rightarrow> int \<Rightarrow> real \<Rightarrow> real \<Rightarrow> (error + row list) \<times> heap" where
  "hl_tweedie_df_heap Q h weight actual predicted bins phi p =
     (let (predicted_temp, h') = clamped_copy h predicted
      in (hl_tweedie_df_body Q (h' ! weight) (h' ! actual) (h' ! predicted) (h' ! predicted_temp) bins, h'))"

definition deviance_tweedie_heap ::
  "tweedie_family \<Rightarrow> heap \<Rightarrow> nat \<Rightarrow> nat \<Rightarrow> nat \<Rightarrow> real \<Rightarrow> (error + npfloat) \<times> heap" where
  "deviance_tweedie_heap tweedie h actual predicted weight p =
     (let (predicted_temp, h') = clamped_copy h predicted
      in (deviance_tweedie_body tweedie (h' ! actual) (h' ! predicted_temp) (h' ! weight) p, h'))"

definition pearson_chi_sq_scale_estimate_heap ::
  "heap \<Rightarrow> nat \<Rightarrow> nat \<Rightarrow> nat \<Rightarrow> int \<Rightarrow> real \<Rightarrow> (error + npfloat) \<times> heap" where
  "pearson_chi_sq_scale_estimate_heap h actual weight predicted p tweedie_power =
     (let (predicted_temp, h') = clamped_copy h predicted
      in (pearson_chi_sq_scale_estimate_body (h' ! actual) (h' ! weight) (h' ! predicted_temp)
            p tweedie_power, h'))"

section \<open>model\_stats\_reg\<close>

text \<open>
  A data set is a dictionary from the keys \<^verbatim>\<open>'y'\<close>, \<^verbatim>\<open>'pred'\<close> and \<^verbatim>\<open>'w'\<close> to vectors, the
  report a dictionary of two dictionaries from metric names to one-element lists.
  \<^verbatim>\<open>train_set\<close> is the caller's dictionary and the function writes to it, so the function
  returns it too. The mean squared error and the mean absolute error of the metrics library
  are not part of the repository: they are parameters.
\<close>

type_synonym dataset = "string \<Rightarrow> real list option"

type_synonym metric = "real list \<Rightarrow> real list \<Rightarrow> error + real"

record report =
  train :: "string \<Rightarrow> npfloat list option"
  valid :: "string \<Rightarrow> npfloat list option"

datatype split = Train | Valid

datatype printed_line = Message string | Raised error

record outcome =
  train_set_after :: dataset
  valid_set_after :: "dataset option"
  printed :: "printed_line list"
  returned :: "error + report"

text \<open>\<^verbatim>\<open>d[k]\<close>: KeyError when the key is missing.\<close>

definition getitem :: "dataset \<Rightarrow> string \<Rightarrow> error + real list" where
  "getitem d k = (case d k of None \<Rightarrow> Inl KeyError | Some v \<Rightarrow> Inr v)"

text \<open>
  The lines before the \<^verbatim>\<open>try\<close>: the default weights, written into \<open>train_set\<close>. The data set
  comes back as the lines leave it, also when one of them raises.
\<close>

definition default_weight :: "dataset \<Rightarrow> dataset option \<Rightarrow> dataset \<times> (error + bool)" where
  "default_weight train_set valid_set =
     (let has_weight = False in
      if train_set ''w'' = None then
        (let has_weight = True in
         case getitem train_set ''y'' of
           Inl e \<Rightarrow> (train_set, Inl e)
         | Inr y \<Rightarrow>
             (let train_set = train_set(''w'' \<mapsto> replicate (length y) 1) in
              case valid_set of
                None \<Rightarrow> (train_set, Inr has_weight)
              | Some vs \<Rightarrow>
                  (case getitem vs ''y'' of
                     Inl e \<Rightarrow> (train_set, Inl e)
                   | Inr vy \<Rightarrow> (train_set(''w'' \<mapsto> replicate (length vy) 1), Inr has_weight))))
      else (train_set, Inr has_weight))"

definition rmse_of :: "metric \<Rightarrow> dataset \<Rightarrow> error + npfloat" where
  "rmse_of mean_squared_error d =
     err_bind (getitem d ''y'') (\<lambda>y.
     err_bind (getitem d ''pred'') (\<lambda>pred.
     err_bind (mean_squared_error y pred) (\<lambda>m. Inr (np_sqrt (Fin m)))))"

definition mae_of :: "metric \<Rightarrow> dataset \<Rightarrow> error + npfloat" where
  "mae_of mean_absolute_error d =
     err_bind (getitem d ''y'') (\<lambda>y.
     err_bind (getitem d ''pred'') (\<lambda>pred.
     err_bind (mean_absolute_error y pred) (\<lambda>m. Inr (Fin m))))"

definition gini_of :: "dataset \<Rightarrow> error + npfloat" where
  "gini_of d =
     err_bind (getitem d ''w'') (\<lambda>w.
     err_bind (getitem d ''y'') (\<lambda>y.
     err_bind (getitem d ''pred'') (\<lambda>pred. weighted_gini w y pred)))"

definition weighted_rmse_of :: "dataset \<Rightarrow> error + npfloat" where
  "weighted_rmse_of d =
     err_bind (getitem d ''w'') (\<lambda>w.
     err_bind (getitem d ''y'') (\<lambda>y.
     err_bind (getitem d ''pred'') (\<lambda>pred. weighted_rmse w y pred)))"

text \<open>
  A statement of the \<^verbatim>\<open>try\<close> block, \<^verbatim>\<open>out_dict[split][key] = [value]\<close>, is the split, the key
  and the computation of the value. The statements run in order; the first one that raises
  ends the block, and the report keeps what the earlier ones wrote.
\<close>

type_synonym statement = "split \<times> string \<times> (error + npfloat)"

fun assign :: "split \<Rightarrow> string \<Rightarrow> npfloat \<Rightarrow> report \<Rightarrow> report" where
  "assign Train k v r = r\<lparr>train := (train r)(k \<mapsto> [v])\<rparr>"
| "assign Valid k v r = r\<lparr>valid := (valid r)(k \<mapsto> [v])\<rparr>"

fun run_statements :: "statement list \<Rightarrow> report \<Rightarrow> report \<times> error option" where
  "run_statements [] r = (r, None)"
| "run_statements ((s, k, Inl e) # rest) r = (r, Some e)"
| "run_statements ((s, k, Inr v) # rest) r = run_statements rest (assign s k v r)"

definition try_block :: "metric \<Rightarrow> metric \<Rightarrow> bool \<Rightarrow> dataset \<Rightarrow> dataset option \<Rightarrow> statement list" where
  "try_block mean_squared_error mean_absolute_error has_weight train_set valid_set =
     [(Train, ''rmse'', rmse_of mean_squared_error train_set),
      (Train, ''mae'', mae_of mean_absolute_error train_set),
      (Train, ''gini'', gini_of train_set)]
     @ (if has_weight then [(Train, ''weighted_rmse'', weighted_rmse_of train_set)] else [])
     @ (case valid_set of
          None \<Rightarrow> []
        | Some vs \<Rightarrow>
            [(Valid, ''rmse'', rmse_of mean_squared_error vs),
             (Valid, ''mae'', mae_of mean_absolute_error vs),
             (Valid, ''gini'', gini_of vs),
             (Valid, ''weighted_rmse'', weighted_rmse_of vs)])"

definition model_stats_reg :: "metric \<Rightarrow> metric \<Rightarrow> dataset \<Rightarrow> dataset option \<Rightarrow> outcome" where
  "model_stats_reg mean_squared_error mean_absolute_error train_set valid_set =
     (let out_dict = \<lparr>train = Map.empty, valid = Map.empty\<rparr> in
      case default_weight train_set valid_set of
        (train_set', Inl e) \<Rightarrow>
          \<lparr>train_set_after = train_set', valid_set_after = valid_set, printed = [],
           returned = Inl e\<rparr>
      | (train_set', Inr has_weight) \<Rightarrow>
          (case run_statements
                  (try_block mean_squared_error mean_absolute_error has_weight train_set' valid_set)
                  out_dict of
             (out_dict', None) \<Rightarrow>
               \<lparr>train_set_after = train_set', valid_set_after = valid_set, printed = [],
                returned = Inr out_dict'\<rparr>
           | (out_dict', Some e) \<Rightarrow>
               \<lparr>train_set_after = train_set', valid_set_after = valid_set,
                printed = [Message ''Stats Failed to run'', Raised e],
                returned = Inr out_dict'\<rparr>))"

text \<open>
  The report a \<^verbatim>\<open>try\<close> block leaves behind, in the words of the specification: the
  statements that ran to their end are those before the first one that raises, and the report
  holds what they wrote, in order, into the empty report.
\<close>

definition succeeded :: "statement \<Rightarrow> bool" where
  "succeeded st = (case st of (s, k, Inl e) \<Rightarrow> False | (s, k, Inr v) \<Rightarrow> True)"

definition completed :: "statement list \<Rightarrow> statement list" where
  "completed stmts = takeWhile succeeded stmts"

definition first_failure :: "statement list \<Rightarrow> error option" where
  "first_failure stmts =
     (case dropWhile succeeded stmts of
        [] \<Rightarrow> None
      | (s, k, Inl e) # rest \<Rightarrow> Some e
      | (s, k, Inr v) # rest \<Rightarrow> None)"

definition written :: "statement list \<Rightarrow> report \<Rightarrow> report" where
  "written stmts r =
     foldl (\<lambda>r st. case st of (s, k, Inr v) \<Rightarrow> assign s k v r | (s, k, Inl e) \<Rightarrow> r) r stmts"

section \<open>Properties of weighted\_gini\<close>

lemma length_cumsum_from: "length (cumsum_from acc xs) = length xs"
  by (induction xs arbitrary: acc) auto

lemma cumsum_from_nth:
  "i < length xs \<Longrightarrow> cumsum_from acc xs ! i = acc + (\<Sum>j\<leftarrow>[0..<Suc i]. xs ! j)"
proof (induction xs arbitrary: acc i)
  case Nil
  then show ?case by simp
next
  case (Cons x xs)
  show ?case
  proof (cases i)
    case 0
    then show ?thesis by simp
  next
    case (Suc k)
    have "[0..<Suc (Suc k)] = 0 # map Suc [0..<Suc k]"
      by (metis map_Suc_upt upt_conv_Cons zero_less_Suc)
    then have "(\<Sum>j\<leftarrow>[0..<Suc (Suc k)]. (x # xs) ! j) = x + (\<Sum>j\<leftarrow>[0..<Suc k]. xs ! j)"
      by (simp add: comp_def del: upt_Suc)
    with Cons Suc show ?thesis by (simp del: upt_Suc)
  qed
qed

lemma np_cumsum_nth:
  "i < length xs \<Longrightarrow> np_cumsum xs ! i = (\<Sum>j\<leftarrow>[0..<Suc i]. xs ! j)"
  by (simp add: np_cumsum_def cumsum_from_nth del: upt_Suc)

lemma sum_list_upt_shift:
  fixes f :: "nat \<Rightarrow> real"
  shows "(\<Sum>i\<leftarrow>[1..<n]. f i) = (\<Sum>k\<leftarrow>[0..<n - 1]. f (Suc k))"
proof -
  have "[1..<n] = map Suc [0..<n - 1]"
    by (cases n) (simp_all add: map_Suc_upt del: upt_Suc)
  then show ?thesis
    by (simp only: map_map comp_def)
qed

lemma sum_list_shifted_products:
  fixes xs ys :: "real list"
  assumes "length xs = length ys"
  shows "sum_list (map2 (*) (drop 1 xs) (butlast ys)) = (\<Sum>i\<leftarrow>[1..<length xs]. xs ! i * ys ! (i - 1))"
    and "sum_list (map2 (*) (butlast xs) (drop 1 ys)) = (\<Sum>i\<leftarrow>[1..<length xs]. xs ! (i - 1) * ys ! i)"
proof -
  have len: "length (zip (drop 1 xs) (butlast ys)) = length xs - 1"
    "length (zip (butlast xs) (drop 1 ys)) = length xs - 1"
    using assms by simp_all
  have "map2 (*) (drop 1 xs) (butlast ys) = map (\<lambda>k. xs ! Suc k * ys ! k) [0..<length xs - 1]"
    by (rule nth_equalityI) (use len assms in \<open>simp_all add: nth_butlast\<close>)
  then show "sum_list (map2 (*) (drop 1 xs) (butlast ys)) = (\<Sum>i\<leftarrow>[1..<length xs]. xs ! i * ys ! (i - 1))"
    unfolding sum_list_upt_shift by simp
  have "map2 (*) (butlast xs) (drop 1 ys) = map (\<lambda>k. xs ! k * ys ! Suc k) [0..<length xs - 1]"
    by (rule nth_equalityI) (use len assms in \<open>simp_all add: nth_butlast\<close>)
  then show "sum_list (map2 (*) (butlast xs) (drop 1 ys)) = (\<Sum>i\<leftarrow>[1..<length xs]. xs ! (i - 1) * ys ! i)"
    unfolding sum_list_upt_shift by simp
qed


lemma np_argsort_set: "set (np_argsort xs) = {0..<length xs}"
  by (simp add: np_argsort_def)

lemma np_argsort_distinct: "distinct (np_argsort xs)"
  by (simp add: np_argsort_def)

lemma np_argsort_length: "length (np_argsort xs) = length xs"
  by (simp add: np_argsort_def)

lemma np_argsort_sorted: "sorted (map (\<lambda>i. xs ! i) (np_argsort xs))"
  by (simp add: np_argsort_def)

lemma np_take_in_bounds:
  "set idx \<subseteq> {0..<length xs} \<Longrightarrow> np_take xs idx = Inr (map (\<lambda>i. xs ! i) idx)"
  by (auto simp: np_take_def list_all_iff)

lemma np_binop_same_length:
  "length xs = length ys \<Longrightarrow> np_binop f xs ys = Inr (map2 f xs ys)"
  by (simp add: np_binop_def)

lemma length_np_cumsum: "length (np_cumsum xs) = length xs"
  by (simp add: np_cumsum_def length_cumsum_from)

lemma gini_tail:
  fixes w a :: "real list"
  assumes len: "length w = length a" and ne: "w \<noteq> []"
  shows "(let cumulative_weight = np_cumsum w in
      err_bind (np_binop (*) w a) (\<lambda>wa.
      let cumulative_actual = np_cumsum wa in
      err_bind (np_binop (*) (drop 1 cumulative_weight) (butlast cumulative_actual)) (\<lambda>pa.
      let sum_a = sum_list pa in
      err_bind (np_binop (*) (butlast cumulative_weight) (drop 1 cumulative_actual)) (\<lambda>pb.
      let sum_b = sum_list pb in
      err_bind (np_last cumulative_weight) (\<lambda>lw.
      err_bind (np_last cumulative_actual) (\<lambda>la.
      let gini = np_div (Fin (sum_b - sum_a)) (Fin (lw * la)) in
      Inr (np_abs gini))))))) = Inr (gini_formula w a)"
proof -
  define N where "N = length w"
  define cw where "cw = np_cumsum w"
  define ca where "ca = np_cumsum (map2 (*) w a)"
  have lcw: "length cw = N" and lca: "length ca = N"
    using len by (simp_all add: cw_def ca_def N_def length_np_cumsum)
  have Npos: "0 < N" using ne by (simp add: N_def)
  have cw_nth: "cw ! i = (\<Sum>j\<leftarrow>[0..<Suc i]. w ! j)" if "i < N" for i
    using that unfolding cw_def N_def by (rule np_cumsum_nth)
  have ca_nth: "ca ! i = (\<Sum>j\<leftarrow>[0..<Suc i]. w ! j * a ! j)" if "i < N" for i
  proof -
    have "ca ! i = (\<Sum>j\<leftarrow>[0..<Suc i]. map2 (*) w a ! j)"
      unfolding ca_def by (rule np_cumsum_nth) (use that len in \<open>simp add: N_def\<close>)
    also have "map (\<lambda>j. map2 (*) w a ! j) [0..<Suc i] = map (\<lambda>j. w ! j * a ! j) [0..<Suc i]"
      using that len by (intro map_cong refl) (auto simp: N_def)
    finally show ?thesis .
  qed
  have sa: "sum_list (map2 (*) (drop 1 cw) (butlast ca)) = (\<Sum>i\<leftarrow>[1..<N]. cw ! i * ca ! (i - 1))"
    using sum_list_shifted_products(1)[of cw ca] lcw lca by simp
  have sb: "sum_list (map2 (*) (butlast cw) (drop 1 ca)) = (\<Sum>i\<leftarrow>[1..<N]. cw ! (i - 1) * ca ! i)"
    using sum_list_shifted_products(2)[of cw ca] lcw lca by simp
  have prod_a: "cw ! i * ca ! (i - 1) =
      (\<Sum>j\<leftarrow>[0..<Suc i]. w ! j) * (\<Sum>j\<leftarrow>[0..<Suc (i - 1)]. w ! j * a ! j)"
    if "i \<in> set [1..<N]" for i
  proof -
    from that have "i < N" "i - 1 < N" by auto
    then show ?thesis by (simp only: cw_nth ca_nth)
  qed
  have prod_b: "cw ! (i - 1) * ca ! i =
      (\<Sum>j\<leftarrow>[0..<Suc (i - 1)]. w ! j) * (\<Sum>j\<leftarrow>[0..<Suc i]. w ! j * a ! j)"
    if "i \<in> set [1..<N]" for i
  proof -
    from that have "i < N" "i - 1 < N" by auto
    then show ?thesis by (simp only: cw_nth ca_nth)
  qed
  have sa': "(\<Sum>i\<leftarrow>[1..<N]. cw ! i * ca ! (i - 1)) =
      (\<Sum>i\<leftarrow>[1..<N]. (\<Sum>j\<leftarrow>[0..<Suc i]. w ! j) * (\<Sum>j\<leftarrow>[0..<Suc (i - 1)]. w ! j * a ! j))"
    by (intro arg_cong[where f = sum_list] map_cong refl) (rule prod_a)
  have sb': "(\<Sum>i\<leftarrow>[1..<N]. cw ! (i - 1) * ca ! i) =
      (\<Sum>i\<leftarrow>[1..<N]. (\<Sum>j\<leftarrow>[0..<Suc (i - 1)]. w ! j) * (\<Sum>j\<leftarrow>[0..<Suc i]. w ! j * a ! j))"
    by (intro arg_cong[where f = sum_list] map_cong refl) (rule prod_b)
  have lastw: "np_last cw = Inr (\<Sum>j\<leftarrow>[0..<Suc (N - 1)]. w ! j)"
    using lcw Npos cw_nth[of "N - 1"] by (auto simp: np_last_def last_conv_nth simp del: upt_Suc)
  have lasta: "np_last ca = Inr (\<Sum>j\<leftarrow>[0..<Suc (N - 1)]. w ! j * a ! j)"
    using lca Npos ca_nth[of "N - 1"] by (auto simp: np_last_def last_conv_nth simp del: upt_Suc)
  have b1: "np_binop (*) (drop 1 cw) (butlast ca) = Inr (map2 (*) (drop 1 cw) (butlast ca))"
    by (rule np_binop_same_length) (simp add: lcw lca)
  have b2: "np_binop (*) (butlast cw) (drop 1 ca) = Inr (map2 (*) (butlast cw) (drop 1 ca))"
    by (rule np_binop_same_length) (simp add: lcw lca)
  have b0: "np_binop (*) w a = Inr (map2 (*) w a)"
    by (rule np_binop_same_length) (rule len)
  show ?thesis
    unfolding Let_def b0 err_bind.simps cw_def[symmetric] ca_def[symmetric] b1 b2 lastw lasta
      sa sb sa' sb' gini_formula_def N_def[symmetric]
    by (rule refl)
qed

lemma weighted_gini_returns:
  assumes "length weight = length predicted" and "length actual = length predicted"
    and "predicted \<noteq> []"
  shows "weighted_gini weight actual predicted =
      Inr (gini_formula (map (\<lambda>i. weight ! i) (rev (np_argsort predicted)))
                        (map (\<lambda>i. actual ! i) (rev (np_argsort predicted))))"
proof -
  let ?idx = "rev (np_argsort predicted)"
  have tw: "np_take weight ?idx = Inr (map (\<lambda>i. weight ! i) ?idx)"
    by (rule np_take_in_bounds) (simp add: np_argsort_set assms)
  have ta: "np_take actual ?idx = Inr (map (\<lambda>i. actual ! i) ?idx)"
    by (rule np_take_in_bounds) (simp add: np_argsort_set assms)
  have ne: "np_argsort predicted \<noteq> []"
  proof
    assume "np_argsort predicted = []"
    then have "length (np_argsort predicted) = 0" by simp
    with assms(3) show False by (simp add: np_argsort_length)
  qed
  show ?thesis
    unfolding weighted_gini_def Let_def[of "rev (np_argsort predicted)"] tw ta err_bind.simps
    by (rule gini_tail) (simp_all add: ne)
qed

text \<open>
  Claim C1. For weight, actual and predicted of one length \<open>N \<ge> 1\<close>, \<^verbatim>\<open>weighted_gini\<close>
  reorders the vectors by a descending sort permutation on \<open>predicted\<close> and returns the absolute
  value of \<open>(sum_b - sum_a) / (cw (N - 1) * ca (N - 1))\<close>, with the cumulative sums and the
  shifted products of the specification; for \<open>N = 1\<close> and a denominator that is not zero the
  result is 0.
\<close>

theorem weighted_gini_formula:
  assumes "length weight = length predicted" and "length actual = length predicted"
    and "predicted \<noteq> []"
  shows "descending_sort_permutation predicted (rev (np_argsort predicted)) \<and>
    weighted_gini weight actual predicted =
      Inr (gini_formula (map (\<lambda>i. weight ! i) (rev (np_argsort predicted)))
                        (map (\<lambda>i. actual ! i) (rev (np_argsort predicted)))) \<and>
    (length predicted = 1 \<and> hd weight * (hd weight * hd actual) \<noteq> 0 \<longrightarrow>
       weighted_gini weight actual predicted = Inr (Fin 0))"
proof -
  let ?idx = "rev (np_argsort predicted)"
  have perm: "descending_sort_permutation predicted ?idx"
    by (simp add: descending_sort_permutation_def np_argsort_set np_argsort_distinct
        np_argsort_sorted rev_map)
  have main: "weighted_gini weight actual predicted =
      Inr (gini_formula (map (\<lambda>i. weight ! i) ?idx) (map (\<lambda>i. actual ! i) ?idx))"
    using assms by (rule weighted_gini_returns)
  have one: "weighted_gini weight actual predicted = Inr (Fin 0)"
    if "length predicted = 1" "hd weight * (hd weight * hd actual) \<noteq> 0"
  proof -
    from that(1) assms obtain p w a where "predicted = [p]" "weight = [w]" "actual = [a]"
      by (metis length_0_conv length_Suc_conv One_nat_def)
    with that(2) main show ?thesis
      by (simp add: np_argsort_def gini_formula_def)
  qed
  from perm main one show ?thesis by blast
qed

theorem weighted_gini_formula_witness:
  "weighted_gini [1, 1, 1, 1] [10, 20, 30, 40] [10, 20, 30, 40] = Inr (Fin (1 / 4)) \<and>
   weighted_gini [2] [3] [7] = Inr (Fin 0)"
  using weighted_gini_formula[of "[1, 1, 1, 1]" "[10, 20, 30, 40]" "[10, 20, 30, 40]"]
    weighted_gini_formula[of "[2]" "[7]" "[3]"]
  by (simp add: np_argsort_def gini_formula_def)

lemma insort_key_cong_order:
  fixes f g :: "'a \<Rightarrow> real"
  assumes "\<And>y. y \<in> set ys \<Longrightarrow> (f x \<le> f y) = (g x \<le> g y)"
  shows "insort_key f x ys = insort_key g x ys"
  using assms by (induction ys) auto

lemma sort_key_cong_order:
  fixes f g :: "'a \<Rightarrow> real"
  assumes "\<And>x y. x \<in> set xs \<Longrightarrow> y \<in> set xs \<Longrightarrow> (f x \<le> f y) = (g x \<le> g y)"
  shows "sort_key f xs = sort_key g xs"
  using assms
proof (induction xs)
  case Nil
  then show ?case by simp
next
  case (Cons x xs)
  have ih: "sort_key f xs = sort_key g xs"
    by (rule Cons.IH) (simp add: Cons.prems)
  have "insort_key f x (sort_key g xs) = insort_key g x (sort_key g xs)"
    by (rule insort_key_cong_order) (simp add: Cons.prems)
  with ih show ?case by simp
qed

lemma round_half_even_near:
  assumes "of_int n - 1 / 2 < r" and "r < of_int n + 1 / 2"
  shows "round_half_even r = n"
proof (cases "of_int n \<le> r")
  case True
  with assms(2) have "\<lfloor>r\<rfloor> = n" by linarith
  with assms(2) show ?thesis by (simp add: round_half_even_def Let_def)
next
  case False
  with assms(1) have f: "\<lfloor>r\<rfloor> = n - 1" by linarith
  with assms(1) show ?thesis by (simp add: round_half_even_def Let_def)
qed

lemma round_half_even_tie:
  assumes "r = of_int f + 1 / 2"
  shows "round_half_even r = (if even f then f else f + 1)"
proof -
  from assms have "\<lfloor>r\<rfloor> = f" by linarith
  with assms show ?thesis by (simp add: round_half_even_def Let_def)
qed

lemma float64_round_at:
  assumes "2 powi e \<le> \<bar>x\<bar>" and "\<bar>x\<bar> < 2 powi (e + 1)" and "- 1022 \<le> e"
  shows "float64_round x = of_int (round_half_even (x / 2 powi (e - 52))) * 2 powi (e - 52)"
proof -
  have pos: "0 < \<bar>x\<bar>"
    using assms(1) zero_less_power_int[of "2 :: real" e] by linarith
  have p1: "(2 :: real) powr real_of_int e = 2 powi e"
    by (simp add: powr_real_of_int')
  have p2: "(2 :: real) powr (real_of_int e + 1) = 2 powi (e + 1)"
    using powr_real_of_int'[of 2 "e + 1"] by simp
  have "\<lfloor>log 2 \<bar>x\<bar>\<rfloor> = e"
    using assms(1,2) pos floor_log_eq_powr_iff[of "\<bar>x\<bar>" 2 e] by (simp add: p1 p2)
  moreover have "max (e - 52) (- 1074) = e - 52"
    using assms(3) by simp
  ultimately show ?thesis
    using pos by (simp add: float64_round_def Let_def)
qed

lemma np_argsort_same_order:
  assumes "same_order xs ys"
  shows "np_argsort xs = np_argsort ys"
proof -
  from assms have len: "length xs = length ys"
    and ord: "\<And>i j. i < length xs \<Longrightarrow> j < length xs \<Longrightarrow> (xs ! i \<le> xs ! j) = (ys ! i \<le> ys ! j)"
    by (auto simp: same_order_def list_all_iff)
  have "sort_key (\<lambda>i. xs ! i) [0..<length xs] = sort_key (\<lambda>i. ys ! i) [0..<length xs]"
    by (rule sort_key_cong_order) (simp add: ord)
  then show ?thesis
    by (simp add: np_argsort_def len)
qed

lemma mul_float64_tenth_1: "float64_mul float64_tenth 1 = float64_tenth"
proof -
  have "float64_round float64_tenth = of_int (round_half_even (float64_tenth / 2 powi (- 4 - 52))) * 2 powi (- 4 - 52)"
    by (rule float64_round_at) (simp_all add: float64_tenth_def)
  moreover have "round_half_even (float64_tenth / 2 powi (- 4 - 52)) = 7205759403792794"
    by (rule round_half_even_near) (simp_all add: float64_tenth_def)
  ultimately show ?thesis
    by (simp add: float64_mul_def float64_tenth_def)
qed

lemma mul_float64_tenth_3: "float64_mul float64_tenth 3 = 5404319552844596 / 2 ^ 54"
proof -
  have "float64_round (float64_tenth * 3) =
      of_int (round_half_even (float64_tenth * 3 / 2 powi (- 2 - 52))) * 2 powi (- 2 - 52)"
    by (rule float64_round_at) (simp_all add: float64_tenth_def)
  moreover have "round_half_even (float64_tenth * 3 / 2 powi (- 2 - 52)) =
      (if even (5404319552844595 :: int) then 5404319552844595 else 5404319552844595 + 1)"
    by (rule round_half_even_tie) (simp add: float64_tenth_def)
  ultimately show ?thesis
    by (simp add: float64_mul_def)
qed

lemma mul_float64_tenth_3e: "float64_mul float64_tenth (3 + 1 / 2 ^ 51) = 5404319552844596 / 2 ^ 54"
proof -
  have "float64_round (float64_tenth * (3 + 1 / 2 ^ 51)) =
      of_int (round_half_even (float64_tenth * (3 + 1 / 2 ^ 51) / 2 powi (- 2 - 52))) * 2 powi (- 2 - 52)"
    by (rule float64_round_at) (simp_all add: float64_tenth_def)
  moreover have "round_half_even (float64_tenth * (3 + 1 / 2 ^ 51) / 2 powi (- 2 - 52)) = 5404319552844596"
    by (rule round_half_even_near) (simp_all add: float64_tenth_def)
  ultimately show ?thesis
    by (simp add: float64_mul_def)
qed


lemma mul_float64_tenth_2: "float64_mul float64_tenth 2 = 2 * float64_tenth"
proof -
  have "float64_round (float64_tenth * 2) =
      of_int (round_half_even (float64_tenth * 2 / 2 powi (- 3 - 52))) * 2 powi (- 3 - 52)"
    by (rule float64_round_at) (simp_all add: float64_tenth_def)
  moreover have "round_half_even (float64_tenth * 2 / 2 powi (- 3 - 52)) = 7205759403792794"
    by (rule round_half_even_near) (simp_all add: float64_tenth_def)
  ultimately show ?thesis
    by (simp add: float64_mul_def float64_tenth_def)
qed

text \<open>
  Claim C9, as amended. For every weight, actual and predicted and every positive scalar \<open>c\<close>
  whose products with the predicted values stay finite and compare as the predicted values do,
  \<^verbatim>\<open>weighted_gini\<close> of \<open>c * predicted\<close> equals \<^verbatim>\<open>weighted_gini\<close> of \<open>predicted\<close>: the
  statistic depends on \<open>predicted\<close> through its ranking only.
\<close>

theorem weighted_gini_scale_invariant:
  assumes "0 < c" and "finite_products c predicted"
    and "same_order (np_scale c predicted) predicted"
  shows "weighted_gini weight actual (np_scale c predicted) = weighted_gini weight actual predicted"
  unfolding weighted_gini_def np_argsort_same_order[OF assms(3)] by (rule refl)

theorem weighted_gini_scale_invariant_witness:
  "weighted_gini [1, 2, 1] [5, 0, 7] (np_scale float64_tenth [2, 1, 3]) = Inr (Fin (13 / 24)) \<and>
   weighted_gini [1, 2, 1] [5, 0, 7] [2, 1, 3] = Inr (Fin (13 / 24))"
proof -
  have sc: "np_scale float64_tenth [2, 1, 3] = [2 * float64_tenth, float64_tenth, 5404319552844596 / 2 ^ 54]"
    unfolding np_scale_def list.map mul_float64_tenth_1 mul_float64_tenth_2 mul_float64_tenth_3 by (rule refl)
  have pos: "0 < float64_tenth" by (simp add: float64_tenth_def)
  have fin: "finite_products float64_tenth [2, 1, 3]"
    unfolding finite_products_def list.pred_inject mul_float64_tenth_1 mul_float64_tenth_2 mul_float64_tenth_3
    by (simp add: float64_tenth_def float64_max_def)
  have ord: "same_order (np_scale float64_tenth [2, 1, 3]) [2, 1, 3]"
    unfolding sc by (simp add: same_order_def float64_tenth_def upt_rec)
  have g: "weighted_gini [1, 2, 1] [5, 0, 7] [2, 1, 3] = Inr (Fin (13 / 24))"
    by (simp add: weighted_gini_def np_argsort_def np_take_def np_binop_def np_cumsum_def
        np_last_def)
  from weighted_gini_scale_invariant[OF pos fin ord, of "[1, 2, 1]" "[5, 0, 7]"] g
  show ?thesis by simp
qed

text \<open>
  The claim as stated, for every positive scalar, fails for \<open>c = 0.1\<close> and the predicted
  values \<open>3.0000000000000004\<close> (the float after 3), 3 and 1: both \<open>0.1 * 3.0000000000000004\<close>
  and \<open>0.1 * 3\<close> round to \<open>0.30000000000000004\<close>, the scaled vector has a tie where
  \<open>predicted\<close> has none, the first two observations change places in the ranking, and the
  statistic goes from 4/9 to 5/9.
\<close>

theorem weighted_gini_scale_invariant_counterexample:
  "0 < float64_tenth \<and>
   weighted_gini [1, 1, 1] [1, 0, 5] [3 + 1 / 2 ^ 51, 3, 1] = Inr (Fin (4 / 9)) \<and>
   weighted_gini [1, 1, 1] [1, 0, 5] (np_scale float64_tenth [3 + 1 / 2 ^ 51, 3, 1]) = Inr (Fin (5 / 9))"
proof -
  have sc: "np_scale float64_tenth [3 + 1 / 2 ^ 51, 3, 1] =
      [5404319552844596 / 2 ^ 54, 5404319552844596 / 2 ^ 54, float64_tenth]"
    unfolding np_scale_def list.map mul_float64_tenth_1 mul_float64_tenth_3 mul_float64_tenth_3e by (rule refl)
  have pos: "0 < float64_tenth" by (simp add: float64_tenth_def)
  have before: "weighted_gini [1, 1, 1] [1, 0, 5] [3 + 1 / 2 ^ 51, 3, 1] = Inr (Fin (4 / 9))"
    by (simp add: weighted_gini_def np_argsort_def np_take_def np_binop_def np_cumsum_def
        np_last_def)
  have after: "weighted_gini [1, 1, 1] [1, 0, 5]
      [5404319552844596 / 2 ^ 54, 5404319552844596 / 2 ^ 54, float64_tenth] = Inr (Fin (5 / 9))"
    by (simp add: weighted_gini_def np_argsort_def np_take_def np_binop_def np_cumsum_def
        np_last_def float64_tenth_def)
  from pos before after show ?thesis
    unfolding sc by simp
qed

section \<open>Vectors of different lengths\<close>

lemma np_take_short:
  assumes "length xs < length predicted"
  shows "np_take xs (rev (np_argsort predicted)) = Inl IndexError"
proof -
  have "length predicted - 1 \<in> set (rev (np_argsort predicted))"
    using assms by (simp add: np_argsort_set)
  moreover have "\<not> length predicted - 1 < length xs"
    using assms by simp
  ultimately have "\<not> list_all (\<lambda>i. i < length xs) (rev (np_argsort predicted))"
    unfolding list_all_iff by blast
  then show ?thesis by (simp add: np_take_def)
qed

lemma np_take_truncate:
  assumes "length predicted \<le> length xs"
  shows "np_take (take (length predicted) xs) (rev (np_argsort predicted)) =
         np_take xs (rev (np_argsort predicted))"
proof -
  have in_range: "i < length predicted" if "i \<in> set (rev (np_argsort predicted))" for i
    using that by (simp add: np_argsort_set)
  have "map (\<lambda>i. take (length predicted) xs ! i) (rev (np_argsort predicted)) =
        map (\<lambda>i. xs ! i) (rev (np_argsort predicted))"
    by (rule map_cong[OF refl]) (simp add: in_range)
  moreover have "set (rev (np_argsort predicted)) \<subseteq> {0..<length (take (length predicted) xs)}"
    using assms by (simp add: np_argsort_set)
  moreover have "set (rev (np_argsort predicted)) \<subseteq> {0..<length xs}"
    using assms by (auto simp: np_argsort_set)
  ultimately show ?thesis
    by (simp only: np_take_in_bounds)
qed

lemma np_take_error:
  "np_take xs idx = Inl e \<Longrightarrow> e = IndexError"
  by (simp add: np_take_def split: if_splits)

lemma weighted_gini_short:
  assumes "length weight < length predicted \<or> length actual < length predicted"
  shows "weighted_gini weight actual predicted = Inl IndexError"
proof (cases "length weight < length predicted")
  case True
  then show ?thesis
    by (simp add: weighted_gini_def np_take_short)
next
  case False
  with assms have "length actual < length predicted" by simp
  then have "np_take actual (rev (np_argsort predicted)) = Inl IndexError"
    by (rule np_take_short)
  then show ?thesis
    by (cases "np_take weight (rev (np_argsort predicted))")
      (auto simp: weighted_gini_def dest: np_take_error)
qed

lemma weighted_gini_truncates:
  assumes "length predicted \<le> length weight" and "length predicted \<le> length actual"
  shows "weighted_gini weight actual predicted =
         weighted_gini (take (length predicted) weight) (take (length predicted) actual) predicted"
  unfolding weighted_gini_def Let_def[of "rev (np_argsort predicted)"]
    np_take_truncate[OF assms(1)] np_take_truncate[OF assms(2)]
  by (rule refl)

lemma weighted_rmse_mismatch:
  assumes "\<not> (length weight = length actual \<and> length actual = length predicted)"
    and "length weight \<noteq> 1" and "length actual \<noteq> 1" and "length predicted \<noteq> 1"
  shows "weighted_rmse weight actual predicted = Inl ValueError"
  using assms by (auto simp: weighted_rmse_def np_binop_def)

lemma hl_tweedie_mismatch:
  assumes "\<not> (length weight = length actual \<and> length actual = length predicted)"
  shows "\<exists>e. hl_tweedie Q weight actual predicted bins phi p = Inl e"
proof (cases "Q predicted weight (map (\<lambda>i. real_of_int i * 1 / real_of_int bins) [1..bins - 1])")
  case (Inl e)
  then show ?thesis
    by (simp add: hl_tweedie_def hl_tweedie_df_def hl_tweedie_df_body_def)
next
  case (Inr qs)
  with assms show ?thesis
    by (auto simp: hl_tweedie_def hl_tweedie_df_def hl_tweedie_df_body_def clamp_eps_def)
qed

text \<open>
  Claim C10, as amended. No function checks the lengths of its vectors; what happens to vectors
  of different lengths is what the array operations do with them. \<^verbatim>\<open>weighted_gini\<close> raises
  IndexError when weight or actual is shorter than predicted, and ignores the entries of
  weight and actual beyond the length of predicted. \<^verbatim>\<open>weighted_rmse\<close> raises ValueError on
  lengths that differ when no vector has length 1 (such a vector is broadcast).
  \<^verbatim>\<open>hl_tweedie\<close> raises on every mismatch: the data frame refuses columns of different
  lengths.
\<close>

theorem length_mismatch_handling:
  "(length weight < length predicted \<or> length actual < length predicted \<longrightarrow>
      weighted_gini weight actual predicted = Inl IndexError) \<and>
   (length predicted \<le> length weight \<and> length predicted \<le> length actual \<longrightarrow>
      weighted_gini weight actual predicted =
      weighted_gini (take (length predicted) weight) (take (length predicted) actual) predicted) \<and>
   (\<not> (length weight = length actual \<and> length actual = length predicted) \<and>
    length weight \<noteq> 1 \<and> length actual \<noteq> 1 \<and> length predicted \<noteq> 1 \<longrightarrow>
      weighted_rmse weight actual predicted = Inl ValueError) \<and>
   (\<not> (length weight = length actual \<and> length actual = length predicted) \<longrightarrow>
      (\<exists>e. hl_tweedie Q weight actual predicted bins phi p = Inl e))"
  using weighted_gini_short[of weight predicted actual]
    weighted_gini_truncates[of predicted weight actual]
    weighted_rmse_mismatch[of weight actual predicted]
    hl_tweedie_mismatch[of weight actual predicted Q bins phi p]
  by blast

theorem length_mismatch_handling_witness:
  "weighted_gini [1, 1] [10, 20, 30] [10, 20, 30] = Inl IndexError \<and>
   weighted_gini [1, 1, 1] [10, 20, 30] [10, 20] = weighted_gini [1, 1] [10, 20] [10, 20] \<and>
   weighted_rmse [1, 1, 1] [3, 4] [7, 9] = Inl ValueError \<and>
   (\<exists>e. hl_tweedie (\<lambda>d w ps. Inr []) [1, 1, 1] [3, 4] [7, 9] 1 1 (3 / 2) = Inl e)"
  using length_mismatch_handling[of "[1, 1]" "[10, 20, 30]" "[10, 20, 30]"]
    length_mismatch_handling[of "[1, 1, 1]" "[10, 20]" "[10, 20, 30]"]
    length_mismatch_handling[of "[1, 1, 1]" "[7, 9]" "[3, 4]" "\<lambda>d w ps. Inr []" 1 1 "3 / 2"]
  by simp

text \<open>
  The claim as stated fails: \<^verbatim>\<open>weighted_gini\<close> returns a value for a weight and an actual
  vector longer than predicted, and \<^verbatim>\<open>weighted_rmse\<close> broadcasts a weight vector of length 1.
\<close>

theorem length_mismatch_counterexample:
  "length [1, 1, 1 :: real] \<noteq> length [10, 20 :: real] \<and>
   weighted_gini [1, 1, 1] [10, 20, 30] [10, 20] = Inr (Fin (1 / 6)) \<and>
   length [2 :: real] \<noteq> length [3, 5 :: real] \<and>
   weighted_rmse [2] [3, 5] [3, 5] = Inr (Fin 0)"
  by (simp add: weighted_gini_def np_argsort_def np_take_def np_binop_def np_cumsum_def
      np_last_def weighted_rmse_def)

section \<open>The binning stage of hl\_tweedie\<close>

lemma hl_tweedie_df_columns:
  assumes "hl_tweedie_df Q weight actual predicted bins phi p = Inr df"
  shows "\<exists>qs. Q predicted weight (map (\<lambda>i. real_of_int i * 1 / real_of_int bins) [1..bins - 1]) = Inr qs \<and>
           map row_quantile df = map (searchsorted qs) predicted \<and>
           map row_predicted df = clamp_eps predicted \<and>
           map row_weight df = weight \<and> map row_actual df = actual"
proof (cases "Q predicted weight (map (\<lambda>i. real_of_int i * 1 / real_of_int bins) [1..bins - 1])")
  case (Inl e)
  with assms show ?thesis
    by (simp add: hl_tweedie_df_def hl_tweedie_df_body_def)
next
  case (Inr qs)
  let ?pt = "clamp_eps predicted"
  let ?q = "map (searchsorted qs) predicted"
  from assms Inr have len: "length weight = length actual" "length actual = length ?pt"
      "length ?pt = length ?q"
    and df: "df = map (\<lambda>(w, a, p, q). \<lparr>row_weight = w, row_actual = a, row_predicted = p, row_quantile = q\<rparr>)
                 (zip weight (zip actual (zip ?pt ?q)))"
    by (simp_all add: hl_tweedie_df_def hl_tweedie_df_body_def Let_def split: if_splits)
  have "map row_quantile df = ?q" "map row_predicted df = ?pt" "map row_weight df = weight"
    "map row_actual df = actual"
    unfolding df using len by (auto intro!: nth_equalityI)
  with Inr show ?thesis by blast
qed

text \<open>
  Claim C2, as amended. In the binning stage of \<^verbatim>\<open>hl_tweedie_df\<close> the \<open>bins - 1\<close> cut points
  are computed over the unclamped \<open>predicted\<close>, and the bin id of each observation is the
  sorted-insertion position of its unclamped predicted value among them. The clamped vector is
  the \<^verbatim>\<open>predicted\<close> column of the frame and takes no part in the binning.
\<close>

theorem hl_tweedie_df_binning:
  assumes "hl_tweedie_df Q weight actual predicted bins phi p = Inr df"
  shows "\<exists>qs. Q predicted weight (map (\<lambda>i. real_of_int i * 1 / real_of_int bins) [1..bins - 1]) = Inr qs \<and>
           length (map (\<lambda>i. real_of_int i * 1 / real_of_int bins) [1..bins - 1]) = nat (bins - 1) \<and>
           map row_quantile df = map (searchsorted qs) predicted \<and>
           map row_predicted df = clamp_eps predicted"
  using hl_tweedie_df_columns[OF assms] by auto

theorem hl_tweedie_df_binning_witness:
  "map row_quantile
     [\<lparr>row_weight = 1, row_actual = 0, row_predicted = epsilon, row_quantile = 0\<rparr>,
      \<lparr>row_weight = 1, row_actual = 0, row_predicted = epsilon, row_quantile = 0\<rparr>,
      \<lparr>row_weight = 1, row_actual = 0, row_predicted = 3, row_quantile = Suc 0\<rparr>] =
   map (searchsorted [- 1]) [- 2, - 1, 3]"
  using hl_tweedie_df_binning[of "\<lambda>d w ps. Inr [- 1]" "[1, 1, 1]" "[0, 0, 0]" "[- 2, - 1, 3]" 2 1 "3 / 2"
     "[\<lparr>row_weight = 1, row_actual = 0, row_predicted = epsilon, row_quantile = 0\<rparr>,
      \<lparr>row_weight = 1, row_actual = 0, row_predicted = epsilon, row_quantile = 0\<rparr>,
      \<lparr>row_weight = 1, row_actual = 0, row_predicted = 3, row_quantile = Suc 0\<rparr>]"]
  by (simp add: hl_tweedie_df_def hl_tweedie_df_body_def clamp_eps_def searchsorted_def)

text \<open>
  The claim as stated, with the search applied to the clamped vector, fails for predicted
  values \<open>-2, -1, 3\<close> of equal weight and two bins. The weighted median is \<open>-1\<close>, the cut
  point; the frame has the bin ids 0, 0, 1, and the search on the clamped vector would give
  1, 1, 1.
\<close>

theorem hl_tweedie_df_binning_counterexample:
  "hl_tweedie_df (\<lambda>d w ps. Inr [- 1]) [1, 1, 1] [0, 0, 0] [- 2, - 1, 3] 2 1 (3 / 2) =
     Inr [\<lparr>row_weight = 1, row_actual = 0, row_predicted = epsilon, row_quantile = 0\<rparr>,
          \<lparr>row_weight = 1, row_actual = 0, row_predicted = epsilon, row_quantile = 0\<rparr>,
          \<lparr>row_weight = 1, row_actual = 0, row_predicted = 3, row_quantile = 1\<rparr>] \<and>
   map (searchsorted [- 1]) (clamp_eps [- 2, - 1, 3]) = [1, 1, 1]"
  by (simp add: hl_tweedie_df_def hl_tweedie_df_body_def clamp_eps_def searchsorted_def epsilon_def)

section \<open>The aggregation stage of hl\_tweedie\<close>

lemma sum_list_zero_nonneg:
  fixes xs :: "real list"
  assumes "\<forall>x\<in>set xs. 0 \<le> x" and "sum_list xs = 0"
  shows "\<forall>x\<in>set xs. x = 0"
  using assms by (simp add: sum_list_nonneg_eq_0_iff)

lemma weighted_sum_zero:
  fixes grp :: "row list"
  assumes "\<forall>r\<in>set grp. row_weight r = 0"
  shows "sum_list (map2 (*) (map f grp) (map row_weight grp)) = 0"
  using assms by (induction grp) auto

lemma weighted_sum_map2:
  "sum_list (map2 (*) (map f grp) (map row_weight grp)) = sum_list (map (\<lambda>r. row_weight r * f r) grp)"
  by (induction grp) (auto simp: mult.commute)

lemma weighted_sum_pos:
  fixes grp :: "row list"
  assumes "\<forall>r\<in>set grp. 0 \<le> row_weight r \<and> 0 < f r" and "0 < sum_list (map row_weight grp)"
  shows "0 < sum_list (map (\<lambda>r. row_weight r * f r) grp)"
  using assms
proof (induction grp)
  case Nil
  then show ?case by simp
next
  case (Cons r rs)
  have rest: "0 \<le> sum_list (map (\<lambda>r. row_weight r * f r) rs)"
    by (rule sum_list_nonneg) (use Cons.prems(1) in \<open>auto simp: less_imp_le\<close>)
  show ?case
  proof (cases "0 < row_weight r")
    case True
    with Cons.prems(1) have "0 < row_weight r * f r" by simp
    with rest show ?thesis by simp
  next
    case False
    with Cons.prems have "row_weight r = 0" "0 < sum_list (map row_weight rs)" by auto
    with Cons show ?thesis by simp
  qed
qed

lemma np_power_square: "np_power (Fin d) 2 = Fin (d ^ 2)"
proof -
  have "\<bar>d\<bar> powr 2 = d ^ 2" if "d \<noteq> 0"
    using that powr_numeral[of "\<bar>d\<bar>" "Num.Bit0 Num.One"] by simp
  moreover have "d powr 2 = d ^ 2" if "0 < d"
    using that by simp
  ultimately show ?thesis
    by (auto simp: whole_def)
qed

lemma chi_sq_tweedie_zero_weight:
  assumes "\<forall>r\<in>set grp. 0 \<le> row_weight r" and "sum_list (map row_weight grp) = 0"
  shows "chi_sq_tweedie phi p grp = NaN"
proof -
  have "\<forall>x\<in>set (map row_weight grp). x = 0"
    by (rule sum_list_zero_nonneg) (use assms in auto)
  then have z: "\<forall>r\<in>set grp. row_weight r = 0" by simp
  show ?thesis
    by (simp add: chi_sq_tweedie_def weighted_average_def weighted_sum_zero[OF z] assms(2)
        np_sub_def)
qed

lemma chi_sq_tweedie_positive_weight:
  assumes w: "\<forall>r\<in>set grp. 0 \<le> row_weight r \<and> 0 < row_predicted r"
    and s: "0 < sum_list (map row_weight grp)" and phi: "phi \<noteq> 0"
  shows "chi_sq_tweedie phi p grp = Fin (chi_sq_term phi p grp)"
proof -
  define sw where "sw = sum_list (map row_weight grp)"
  define sa where "sa = sum_list (map (\<lambda>r. row_weight r * row_actual r) grp)"
  define sp where "sp = sum_list (map (\<lambda>r. row_weight r * row_predicted r) grp)"
  have sw: "sw \<noteq> 0" "0 < sw" using s by (simp_all add: sw_def)
  have sp: "0 < sp" unfolding sp_def by (rule weighted_sum_pos) (use w s in auto)
  have wp: "0 < sp / sw" using sp sw by simp
  have wa: "weighted_average (map row_actual grp) (map row_weight grp) = Fin (sa / sw)"
    using sw by (simp add: weighted_average_def weighted_sum_map2 sa_def sw_def)
  have wpr: "weighted_average (map row_predicted grp) (map row_weight grp) = Fin (sp / sw)"
    using sw by (simp add: weighted_average_def weighted_sum_map2 sp_def sw_def)
  have "(sp / sw) powr p \<noteq> 0"
    using sp sw by simp
  then have den: "phi * (sp / sw) powr p / sw \<noteq> 0"
    using phi sw by simp
  have "chi_sq_tweedie phi p grp =
      np_div (np_power (Fin (sa / sw - sp / sw)) 2)
        (np_div (np_mul (Fin phi) (np_power (Fin (sp / sw)) p)) (Fin sw))"
    by (simp add: chi_sq_tweedie_def wa wpr np_sub_def sw_def)
  also have "\<dots> = Fin ((sa / sw - sp / sw) ^ 2 / (phi * (sp / sw) powr p / sw))"
    unfolding np_power_square using wp sw den by simp
  also have "\<dots> = Fin (chi_sq_term phi p grp)"
    unfolding chi_sq_term_def Let_def sw_def sa_def sp_def by (rule refl)
  finally show ?thesis .
qed

lemma foldl_np_add_Fin: "foldl np_add (Fin a) (map Fin xs) = Fin (a + sum_list xs)"
  by (induction xs arbitrary: a) (auto simp: add.assoc)

lemma pd_sum_terms:
  assumes "\<And>g. g \<in> set gs \<Longrightarrow> \<not> P g \<Longrightarrow> f g = NaN"
    and "\<And>g. g \<in> set gs \<Longrightarrow> P g \<Longrightarrow> f g = Fin (t g)"
  shows "pd_sum (map f gs) = Fin (sum_list (map t (filter P gs)))"
proof -
  have "filter (\<lambda>x. x \<noteq> NaN) (map f gs) = map Fin (map t (filter P gs))"
    using assms
  proof (induction gs)
    case Nil
    then show ?case by simp
  next
    case (Cons g gs)
    then show ?case by (cases "P g") auto
  qed
  then show ?thesis
    unfolding pd_sum_def by (simp only: foldl_np_add_Fin) simp
qed

lemma groupby_quantile_subset:
  "g \<in> set (groupby_quantile df) \<Longrightarrow> set g \<subseteq> set df"
  by (auto simp: groupby_quantile_def)


lemma epsilon_pos: "0 < epsilon"
  by (simp add: epsilon_def)

lemma clamp_eps_pos: "x \<in> set (clamp_eps predicted) \<Longrightarrow> 0 < x"
  using epsilon_pos by (auto simp: clamp_eps_def not_le)

lemma hl_tweedie_df_rows:
  assumes "hl_tweedie_df Q weight actual predicted bins phi p = Inr df"
    and "\<forall>w\<in>set weight. 0 \<le> w" and "r \<in> set df"
  shows "0 \<le> row_weight r \<and> 0 < row_predicted r"
proof -
  from hl_tweedie_df_columns[OF assms(1)]
  have cols: "map row_predicted df = clamp_eps predicted" "map row_weight df = weight"
    by auto
  from assms(3) have "row_weight r \<in> set (map row_weight df)"
    and "row_predicted r \<in> set (map row_predicted df)"
    by simp_all
  with cols assms(2) show ?thesis
    by (auto dest: clamp_eps_pos)
qed

lemma hl_aggregate:
  assumes rows: "\<And>r. r \<in> set df \<Longrightarrow> 0 \<le> row_weight r \<and> 0 < row_predicted r"
    and phi: "phi \<noteq> 0"
  shows "pd_sum (map (chi_sq_tweedie phi p) (groupby_quantile df)) =
         Fin (\<Sum>g\<leftarrow>filter (\<lambda>g. 0 < sum_list (map row_weight g)) (groupby_quantile df).
                chi_sq_term phi p g)"
proof (rule pd_sum_terms)
  fix g
  assume g: "g \<in> set (groupby_quantile df)"
  then have sub: "set g \<subseteq> set df" by (rule groupby_quantile_subset)
  then have gw: "\<forall>r\<in>set g. 0 \<le> row_weight r \<and> 0 < row_predicted r"
    using rows by blast
  {
    assume "\<not> 0 < sum_list (map row_weight g)"
    moreover have "0 \<le> sum_list (map row_weight g)"
      by (rule sum_list_nonneg) (use gw in auto)
    ultimately have "sum_list (map row_weight g) = 0" by simp
    with gw show "chi_sq_tweedie phi p g = NaN"
      by (intro chi_sq_tweedie_zero_weight) auto
  }
  {
    assume "0 < sum_list (map row_weight g)"
    with gw phi show "chi_sq_tweedie phi p g = Fin (chi_sq_term phi p g)"
      by (intro chi_sq_tweedie_positive_weight) auto
  }
qed

lemma hl_tweedie_sum_positive_bins:
  assumes "\<forall>w\<in>set weight. 0 \<le> w" and "phi \<noteq> 0"
    and "hl_tweedie_df Q weight actual predicted bins phi p = Inr df"
  shows "hl_tweedie Q weight actual predicted bins phi p =
         Inr (Fin (\<Sum>g\<leftarrow>filter (\<lambda>g. 0 < sum_list (map row_weight g)) (groupby_quantile df).
                     chi_sq_term phi p g))"
proof -
  have "pd_sum (map (chi_sq_tweedie phi p) (groupby_quantile df)) =
        Fin (\<Sum>g\<leftarrow>filter (\<lambda>g. 0 < sum_list (map row_weight g)) (groupby_quantile df).
               chi_sq_term phi p g)"
    by (rule hl_aggregate) (use assms hl_tweedie_df_rows in blast)+
  then show ?thesis
    by (simp add: hl_tweedie_def assms(3))
qed

lemma groupby_quantile_bins:
  "groupby_quantile df = map (bin_rows df) (sort (remdups (map row_quantile df)))"
  by (simp add: groupby_quantile_def bin_rows_def)

lemma sum_positive_groups:
  "(\<Sum>g\<leftarrow>filter (\<lambda>g. 0 < sum_list (map row_weight g)) (groupby_quantile df). f g) =
   (\<Sum>k\<in>positive_bins df. f (bin_rows df k))"
proof -
  let ?keys = "sort (remdups (map row_quantile df))"
  let ?pos = "filter (\<lambda>k. 0 < bin_weight df k) ?keys"
  have d: "distinct ?pos" by simp
  have s: "set ?pos = positive_bins df"
    by (auto simp: positive_bins_def)
  have "filter (\<lambda>g. 0 < sum_list (map row_weight g)) (groupby_quantile df) =
      map (bin_rows df) ?pos"
    by (simp add: groupby_quantile_bins filter_map comp_def bin_weight_def)
  then have "(\<Sum>g\<leftarrow>filter (\<lambda>g. 0 < sum_list (map row_weight g)) (groupby_quantile df). f g) =
      (\<Sum>k\<leftarrow>?pos. f (bin_rows df k))"
    by (simp add: comp_def)
  also have "\<dots> = (\<Sum>k\<in>set ?pos. f (bin_rows df k))"
    using d by (rule sum_list_distinct_conv_sum_set)
  finally show ?thesis by (simp only: s)
qed

text \<open>
  Claim C7. In the aggregation stage of \<^verbatim>\<open>hl_tweedie\<close>, for weights that are not negative
  and a dispersion \<open>phi\<close> that is not zero, a bin of total weight zero contributes nothing and
  raises nothing (its term is NaN, which the sum of the series leaves out): the statistic is the
  sum, over exactly the bin ids of positive total weight, of the chi-square term
  \<open>(wavg_actual - wavg_predicted)\<^sup>2 / ((phi * wavg_predicted powr p) / sum of the weights)\<close>
  of the rows with that bin id.
\<close>

theorem hl_tweedie_skips_zero_weight_bins:
  assumes "\<forall>w\<in>set weight. 0 \<le> w" and "phi \<noteq> 0"
    and "hl_tweedie_df Q weight actual predicted bins phi p = Inr df"
  shows "hl_tweedie Q weight actual predicted bins phi p =
         Inr (Fin (\<Sum>k\<in>positive_bins df. chi_sq_term phi p (bin_rows df k)))"
  using hl_tweedie_sum_positive_bins[OF assms] by (simp only: sum_positive_groups)

theorem hl_tweedie_skips_zero_weight_bins_witness:
  "hl_tweedie (\<lambda>d w ps. Inr [1, 3]) [1, 1, 1, 1, 0] [2, 2, 3, 6, 7] [1, 1, 3, 3, 5] 3 1 2 =
     Inr (Fin (5 / 2))"
proof -
  let ?r1 = "\<lparr>row_weight = 1, row_actual = 2, row_predicted = 1, row_quantile = 0\<rparr>"
  let ?r3 = "\<lparr>row_weight = 1, row_actual = 3, row_predicted = 3, row_quantile = Suc 0\<rparr>"
  let ?r4 = "\<lparr>row_weight = 1, row_actual = 6, row_predicted = 3, row_quantile = Suc 0\<rparr>"
  let ?r5 = "\<lparr>row_weight = 0, row_actual = 7, row_predicted = 5, row_quantile = 2\<rparr>"
  let ?df = "[?r1, ?r1, ?r3, ?r4, ?r5]"
  have w: "\<forall>w\<in>set [1, 1, 1, 1, 0 :: real]. 0 \<le> w" by simp
  have phi: "(1 :: real) \<noteq> 0" by simp
  have df: "hl_tweedie_df (\<lambda>d w ps. Inr [1, 3]) [1, 1, 1, 1, 0] [2, 2, 3, 6, 7] [1, 1, 3, 3, 5] 3 1 2 =
      Inr ?df"
    by (simp add: hl_tweedie_df_def hl_tweedie_df_body_def clamp_eps_def searchsorted_def)
  have b0: "bin_rows ?df 0 = [?r1, ?r1]" and b1: "bin_rows ?df (Suc 0) = [?r3, ?r4]"
    and b2: "bin_rows ?df 2 = [?r5]"
    by (simp_all add: bin_rows_def)
  have w0: "bin_weight ?df 0 = 2" and w1: "bin_weight ?df (Suc 0) = 2" and w2: "bin_weight ?df 2 = 0"
    by (simp_all add: bin_weight_def bin_rows_def)
  have ids: "row_quantile ` set ?df = {0, Suc 0, 2}"
    by auto
  have "positive_bins ?df = {k \<in> {0, Suc 0, 2}. 0 < bin_weight ?df k}"
    unfolding positive_bins_def ids ..
  also have "\<dots> = {0, Suc 0}"
    using w0 w1 w2 by auto
  finally have pos: "positive_bins ?df = {0, Suc 0}" .
  have t0: "chi_sq_term 1 2 [?r1, ?r1] = 2"
    by (simp add: chi_sq_term_def)
  have t1: "chi_sq_term 1 2 [?r3, ?r4] = 1 / 2"
    by (simp add: chi_sq_term_def power2_eq_square)
  from hl_tweedie_skips_zero_weight_bins[OF w phi df] show ?thesis
    unfolding pos by (simp add: bin_rows_def t0 t1)
qed

lemma remdups_constant:
  "xs \<noteq> [] \<Longrightarrow> \<forall>x\<in>set xs. x = k \<Longrightarrow> remdups xs = [k]"
proof (induction xs)
  case Nil
  then show ?case by simp
next
  case (Cons x xs)
  show ?case
  proof (cases "xs = []")
    case True
    with Cons.prems show ?thesis by simp
  next
    case False
    with Cons have "remdups xs = [k]" by simp
    moreover from False Cons.prems have "x \<in> set xs"
      by (cases xs) auto
    ultimately show ?thesis by simp
  qed
qed

lemma groupby_quantile_one_bin:
  assumes "df \<noteq> []" and "\<forall>r\<in>set df. row_quantile r = 0"
  shows "groupby_quantile df = [df]"
proof -
  have "remdups (map row_quantile df) = [0]"
    by (rule remdups_constant) (use assms in auto)
  moreover have "filter (\<lambda>r. row_quantile r = 0) df = df"
    using assms(2) by (simp add: filter_id_conv)
  ultimately show ?thesis
    by (simp add: groupby_quantile_def)
qed

text \<open>
  Claim C8. With \<open>bins = 1\<close> and a valid input (vectors of one length \<open>N \<ge> 1\<close>, weights that
  are not negative and not all zero, a dispersion that is not zero), \<^verbatim>\<open>hl_tweedie\<close> returns
  the single chi-square term of the whole data set taken as one bin. The estimator is asked
  for no cut point and returns none.
\<close>

theorem hl_tweedie_one_bin:
  assumes len: "length weight = length actual" "length actual = length predicted"
    and ne: "predicted \<noteq> []"
    and w: "\<forall>w\<in>set weight. 0 \<le> w" "0 < sum_list weight" and phi: "phi \<noteq> 0"
    and Q: "Q predicted weight [] = Inr []"
  shows "\<exists>df. map row_weight df = weight \<and> map row_actual df = actual \<and>
           map row_predicted df = clamp_eps predicted \<and>
           hl_tweedie Q weight actual predicted 1 phi p = Inr (Fin (chi_sq_term phi p df))"
proof -
  define df where "df = map (\<lambda>(w, a, p, q). \<lparr>row_weight = w, row_actual = a, row_predicted = p, row_quantile = q\<rparr>)
      (zip weight (zip actual (zip (clamp_eps predicted) (map (searchsorted []) predicted))))"
  have built: "hl_tweedie_df Q weight actual predicted 1 phi p = Inr df"
    using len Q by (simp add: hl_tweedie_df_def hl_tweedie_df_body_def df_def clamp_eps_def)
  from hl_tweedie_df_columns[OF built] Q
  have cols: "map row_quantile df = map (searchsorted []) predicted"
    "map row_predicted df = clamp_eps predicted" "map row_weight df = weight"
    "map row_actual df = actual"
    by auto
  have "length df = length predicted"
    using cols(1) by (metis length_map)
  with ne have dne: "df \<noteq> []" by auto
  have "\<forall>q\<in>set (map row_quantile df). q = 0"
    unfolding cols(1) by (simp add: searchsorted_def)
  then have q0: "\<forall>r\<in>set df. row_quantile r = 0" by simp
  have one: "groupby_quantile df = [df]"
    using dne q0 by (rule groupby_quantile_one_bin)
  have "hl_tweedie Q weight actual predicted 1 phi p =
      Inr (Fin (\<Sum>g\<leftarrow>filter (\<lambda>g. 0 < sum_list (map row_weight g)) (groupby_quantile df).
                     chi_sq_term phi p g))"
    using w(1) phi built by (rule hl_tweedie_sum_positive_bins)
  then have "hl_tweedie Q weight actual predicted 1 phi p = Inr (Fin (chi_sq_term phi p df))"
    using w(2) by (simp add: one cols(3))
  with cols show ?thesis by blast
qed

theorem hl_tweedie_one_bin_witness:
  "hl_tweedie (\<lambda>d w ps. Inr []) [1, 1] [2, 4] [1, 1] 1 1 (3 / 2) = Inr (Fin 8)"
proof -
  have "\<exists>df. map row_weight df = [1, 1] \<and> map row_actual df = [2, 4] \<and>
      map row_predicted df = clamp_eps [1, 1] \<and>
      hl_tweedie (\<lambda>d w ps. Inr []) [1, 1] [2, 4] [1, 1] 1 1 (3 / 2) = Inr (Fin (chi_sq_term 1 (3 / 2) df))"
    by (rule hl_tweedie_one_bin) simp_all
  then obtain df where w: "map row_weight df = [1, 1]" and a: "map row_actual df = [2, 4]"
    and p: "map row_predicted df = clamp_eps [1, 1]"
    and r: "hl_tweedie (\<lambda>d w ps. Inr []) [1, 1] [2, 4] [1, 1] 1 1 (3 / 2) = Inr (Fin (chi_sq_term 1 (3 / 2) df))"
    by (elim exE conjE)
  from w obtain r1 r2 where df: "df = [r1, r2]"
    by (auto simp: map_eq_Cons_conv)
  from w a p have "row_weight r1 = 1" "row_weight r2 = 1" "row_actual r1 = 2" "row_actual r2 = 4"
    "row_predicted r1 = 1" "row_predicted r2 = 1"
    unfolding df by (simp_all add: clamp_eps_def)
  then have "chi_sq_term 1 (3 / 2) df = 8"
    by (simp add: chi_sq_term_def df)
  with r show ?thesis by simp
qed

section \<open>Properties of model\_stats\_reg\<close>

lemma run_statements_partial:
  "run_statements stmts r = (written (completed stmts) r, first_failure stmts)"
proof (induction stmts r rule: run_statements.induct)
  case (1 r)
  show ?case by (simp add: written_def completed_def first_failure_def)
next
  case (2 s k e rest r)
  show ?case by (simp add: written_def completed_def first_failure_def succeeded_def)
next
  case (3 s k v rest r)
  then show ?case by (simp add: written_def completed_def first_failure_def succeeded_def)
qed

lemma default_weight_cases:
  "default_weight train_set valid_set =
     (if train_set ''w'' \<noteq> None then (train_set, Inr False)
      else case train_set ''y'' of
        None \<Rightarrow> (train_set, Inl KeyError)
      | Some y \<Rightarrow>
          (case valid_set of
             None \<Rightarrow> (train_set(''w'' \<mapsto> replicate (length y) 1), Inr True)
           | Some vs \<Rightarrow>
               (case vs ''y'' of
                  None \<Rightarrow> (train_set(''w'' \<mapsto> replicate (length y) 1), Inl KeyError)
                | Some vy \<Rightarrow> (train_set(''w'' \<mapsto> replicate (length vy) 1), Inr True))))"
  by (simp add: default_weight_def getitem_def Let_def split: option.splits)

lemma model_stats_reg_raises:
  assumes "default_weight train_set valid_set = (ts, Inl e)"
  shows "model_stats_reg mse mae train_set valid_set =
     \<lparr>train_set_after = ts, valid_set_after = valid_set, printed = [], returned = Inl e\<rparr>"
  using assms by (simp add: model_stats_reg_def)

lemma model_stats_reg_returns:
  assumes "default_weight train_set valid_set = (ts, Inr hw)"
  shows "model_stats_reg mse mae train_set valid_set =
     \<lparr>train_set_after = ts, valid_set_after = valid_set,
      printed = (case first_failure (try_block mse mae hw ts valid_set) of
                   None \<Rightarrow> [] | Some e \<Rightarrow> [Message ''Stats Failed to run'', Raised e]),
      returned = Inr (written (completed (try_block mse mae hw ts valid_set))
                        \<lparr>train = Map.empty, valid = Map.empty\<rparr>)\<rparr>"
  using assms
  by (simp add: model_stats_reg_def run_statements_partial split: option.splits)


lemma written_train_untouched:
  assumes "\<And>c. (Train, k, c) \<notin> set stmts"
  shows "train (written stmts r) k = train r k"
  using assms
proof (induction stmts arbitrary: r)
  case Nil
  then show ?case by (simp add: written_def)
next
  case (Cons st stmts)
  obtain s k' c where st: "st = (s, k', c)" by (cases st)
  have ih: "train (written stmts r') k = train r' k" for r'
    by (rule Cons.IH) (use Cons.prems in auto)
  have step: "written (st # stmts) r =
      written stmts (case c of Inr v \<Rightarrow> assign s k' v r | Inl e \<Rightarrow> r)"
    by (simp add: written_def st)
  have "train (case c of Inr v \<Rightarrow> assign s k' v r | Inl e \<Rightarrow> r) k = train r k"
  proof (cases c)
    case (Inl e)
    then show ?thesis by simp
  next
    case (Inr v)
    show ?thesis
    proof (cases s)
      case Train
      with Cons.prems[of c] st have "k' \<noteq> k" by auto
      with Train Inr show ?thesis by simp
    next
      case Valid
      with Inr show ?thesis by simp
    qed
  qed
  with step ih show ?case by simp
qed

lemma completed_subset: "set (completed stmts) \<subseteq> set stmts"
  by (auto simp: completed_def dest: set_takeWhileD)

text \<open>
  Claim C3. The specification has \<^verbatim>\<open>weighted_rmse\<close> in the \<^verbatim>\<open>train\<close> entry exactly when
  the key \<^verbatim>\<open>'w'\<close> was supplied. The code sets its flag \<^verbatim>\<open>has_weight\<close> in the branch where
  the key is missing, so the report of a train set that has the key never holds the metric.
\<close>

theorem model_stats_reg_weighted_rmse_flag:
  assumes "train_set ''w'' = Some w"
  shows "\<exists>r. returned (model_stats_reg mse mae train_set valid_set) = Inr r \<and>
             train r ''weighted_rmse'' = None"
proof -
  have dw: "default_weight train_set valid_set = (train_set, Inr False)"
    using assms by (simp add: default_weight_cases)
  let ?stmts = "try_block mse mae False train_set valid_set"
  have "(Train, ''weighted_rmse'', c) \<notin> set ?stmts" for c
    by (auto simp: try_block_def split: option.splits)
  then have "(Train, ''weighted_rmse'', c) \<notin> set (completed ?stmts)" for c
    using completed_subset by blast
  then have "train (written (completed ?stmts) \<lparr>train = Map.empty, valid = Map.empty\<rparr>)
      ''weighted_rmse'' = None"
    by (simp add: written_train_untouched)
  then show ?thesis
    by (simp add: model_stats_reg_returns[OF dw])
qed

theorem model_stats_reg_weighted_rmse_flag_witness:
  "(\<exists>r. returned (model_stats_reg (\<lambda>y p. Inr 0) (\<lambda>y p. Inr 0)
           [''y'' \<mapsto> [1, 2], ''pred'' \<mapsto> [1, 2], ''w'' \<mapsto> [1, 1]] None) = Inr r \<and>
        train r ''weighted_rmse'' = None) \<and>
   returned (model_stats_reg (\<lambda>y p. Inr 0) (\<lambda>y p. Inr 0)
           [''y'' \<mapsto> [1, 2], ''pred'' \<mapsto> [1, 2], ''w'' \<mapsto> [1, 1]] None) =
     Inr \<lparr>train = [''rmse'' \<mapsto> [Fin 0], ''mae'' \<mapsto> [Fin 0], ''gini'' \<mapsto> [Fin (1 / 6)]],
          valid = Map.empty\<rparr>"
proof -
  let ?ts = "[''y'' \<mapsto> [1, 2 :: real], ''pred'' \<mapsto> [1, 2], ''w'' \<mapsto> [1, 1]]"
  let ?m = "\<lambda>(y :: real list) (p :: real list). Inr 0 :: error + real"
  have dw: "default_weight ?ts None = (?ts, Inr False)"
    by (simp add: default_weight_cases)
  have g: "weighted_gini [1, 1] [1, 2] [1, 2] = Inr (Fin (1 / 6))"
    by (simp add: weighted_gini_def np_argsort_def np_take_def np_binop_def np_cumsum_def
        np_last_def)
  have r1: "rmse_of ?m ?ts = Inr (Fin 0)" and r2: "mae_of ?m ?ts = Inr (Fin 0)"
    and r3: "gini_of ?ts = Inr (Fin (1 / 6))"
    by (simp_all add: rmse_of_def mae_of_def gini_of_def getitem_def g)
  have c: "completed (try_block ?m ?m False ?ts None) =
      [(Train, ''rmse'', Inr (Fin 0)), (Train, ''mae'', Inr (Fin 0)), (Train, ''gini'', Inr (Fin (1 / 6)))]"
    by (simp add: try_block_def r1 r2 r3 completed_def succeeded_def)
  have full: "returned (model_stats_reg ?m ?m ?ts None) =
      Inr \<lparr>train = [''rmse'' \<mapsto> [Fin 0], ''mae'' \<mapsto> [Fin 0], ''gini'' \<mapsto> [Fin (1 / 6)]],
           valid = Map.empty\<rparr>"
    unfolding model_stats_reg_returns[OF dw] c by (simp add: written_def)
  have "\<exists>r. returned (model_stats_reg ?m ?m ?ts None) = Inr r \<and> train r ''weighted_rmse'' = None"
    by (rule model_stats_reg_weighted_rmse_flag[of _ "[1, 1]"]) simp
  with full show ?thesis by blast
qed

lemma weighted_rmse_returns:
  assumes "length weight = length predicted" and "length actual = length predicted"
  shows "\<exists>v. weighted_rmse weight actual predicted = Inr v"
  using assms by (simp add: weighted_rmse_def np_binop_def)

text \<open>
  Claim C4. For a train set without the key \<^verbatim>\<open>'w'\<close>, with \<^verbatim>\<open>'y'\<close> and \<^verbatim>\<open>'pred'\<close> of one
  length \<open>N \<ge> 1\<close> on which the two library metrics return, and no valid set,
  \<^verbatim>\<open>model_stats_reg\<close> returns a report whose \<^verbatim>\<open>train\<close> entry has exactly the keys
  \<^verbatim>\<open>rmse\<close>, \<^verbatim>\<open>mae\<close>, \<^verbatim>\<open>gini\<close> and \<^verbatim>\<open>weighted_rmse\<close>, each with a list of one number, and
  whose \<^verbatim>\<open>valid\<close> entry is empty.
\<close>

theorem model_stats_reg_default_weights:
  assumes w: "train_set ''w'' = None"
    and y: "train_set ''y'' = Some y" and pred: "train_set ''pred'' = Some pred"
    and len: "length pred = length y" "y \<noteq> []"
    and mse: "mse y pred = Inr m" and mae: "mae y pred = Inr a"
  shows "\<exists>v1 v2 v3 v4. returned (model_stats_reg mse mae train_set None) =
      Inr \<lparr>train = [''rmse'' \<mapsto> [v1], ''mae'' \<mapsto> [v2], ''gini'' \<mapsto> [v3], ''weighted_rmse'' \<mapsto> [v4]],
           valid = Map.empty\<rparr>"
proof -
  let ?ts = "train_set(''w'' \<mapsto> replicate (length y) 1)"
  have dw: "default_weight train_set None = (?ts, Inr True)"
    using w y by (simp add: default_weight_cases)
  have gy: "getitem ?ts ''y'' = Inr y" and gp: "getitem ?ts ''pred'' = Inr pred"
    and gw: "getitem ?ts ''w'' = Inr (replicate (length y) 1)"
    using y pred by (simp_all add: getitem_def)
  have r1: "rmse_of mse ?ts = Inr (np_sqrt (Fin m))"
    by (simp add: rmse_of_def gy gp mse)
  have r2: "mae_of mae ?ts = Inr (Fin a)"
    by (simp add: mae_of_def gy gp mae)
  from len have pne: "pred \<noteq> []" by auto
  have "weighted_gini (replicate (length y) 1) y pred =
      Inr (gini_formula (map (\<lambda>i. replicate (length y) 1 ! i) (rev (np_argsort pred)))
                        (map (\<lambda>i. y ! i) (rev (np_argsort pred))))"
    by (rule weighted_gini_returns) (use len pne in simp_all)
  then obtain v3 where r3: "gini_of ?ts = Inr v3"
    by (simp add: gini_of_def gy gp gw)
  have "\<exists>v. weighted_rmse (replicate (length y) 1) y pred = Inr v"
    by (rule weighted_rmse_returns) (use len in simp_all)
  then obtain v4 where r4: "weighted_rmse_of ?ts = Inr v4"
    by (auto simp: weighted_rmse_of_def gy gp gw)
  have stmts: "try_block mse mae True ?ts None =
      [(Train, ''rmse'', Inr (np_sqrt (Fin m))), (Train, ''mae'', Inr (Fin a)),
       (Train, ''gini'', Inr v3), (Train, ''weighted_rmse'', Inr v4)]"
    by (simp add: try_block_def r1 r2 r3 r4)
  have "returned (model_stats_reg mse mae train_set None) =
      Inr \<lparr>train = [''rmse'' \<mapsto> [np_sqrt (Fin m)], ''mae'' \<mapsto> [Fin a], ''gini'' \<mapsto> [v3],
                    ''weighted_rmse'' \<mapsto> [v4]],
           valid = Map.empty\<rparr>"
    by (simp add: model_stats_reg_returns[OF dw] stmts completed_def succeeded_def written_def)
  then show ?thesis by blast
qed

theorem model_stats_reg_default_weights_witness:
  "\<exists>v1 v2 v3 v4. returned (model_stats_reg (\<lambda>y p. Inr 0) (\<lambda>y p. Inr 0)
       [''y'' \<mapsto> [1, 2], ''pred'' \<mapsto> [1, 2]] None) =
      Inr \<lparr>train = [''rmse'' \<mapsto> [v1], ''mae'' \<mapsto> [v2], ''gini'' \<mapsto> [v3], ''weighted_rmse'' \<mapsto> [v4]],
           valid = Map.empty\<rparr>"
  by (rule model_stats_reg_default_weights[of _ "[1, 2]" "[1, 2]" _ 0 _ 0]) simp_all

text \<open>
  Claim C5, as amended. \<^verbatim>\<open>model_stats_reg\<close> catches every exception of the statements in its
  \<^verbatim>\<open>try\<close> block: it prints the message and the exception and returns the report with what the
  statements before the failing one wrote. The lines before the block are not covered: when
  \<^verbatim>\<open>train_set\<close> has no key \<^verbatim>\<open>'w'\<close> and \<^verbatim>\<open>train_set\<close> or a given \<^verbatim>\<open>valid_set\<close> has no
  key \<^verbatim>\<open>'y'\<close>, the call raises KeyError; in every other case it returns.
\<close>

theorem model_stats_reg_exceptions:
  "(train_set ''w'' = None \<and>
      (train_set ''y'' = None \<or> (\<exists>vs. valid_set = Some vs \<and> vs ''y'' = None)) \<longrightarrow>
      returned (model_stats_reg mse mae train_set valid_set) = Inl KeyError) \<and>
   (\<not> (train_set ''w'' = None \<and>
      (train_set ''y'' = None \<or> (\<exists>vs. valid_set = Some vs \<and> vs ''y'' = None))) \<longrightarrow>
      (\<exists>ts hw. default_weight train_set valid_set = (ts, Inr hw) \<and>
         returned (model_stats_reg mse mae train_set valid_set) =
           Inr (written (completed (try_block mse mae hw ts valid_set))
                  \<lparr>train = Map.empty, valid = Map.empty\<rparr>) \<and>
         printed (model_stats_reg mse mae train_set valid_set) =
           (case first_failure (try_block mse mae hw ts valid_set) of
              None \<Rightarrow> []
            | Some e \<Rightarrow> [Message ''Stats Failed to run'', Raised e])))"
proof (intro conjI impI)
  assume "train_set ''w'' = None \<and>
      (train_set ''y'' = None \<or> (\<exists>vs. valid_set = Some vs \<and> vs ''y'' = None))"
  then have "\<exists>ts. default_weight train_set valid_set = (ts, Inl KeyError)"
    by (auto simp: default_weight_cases split: option.splits)
  then obtain ts where "default_weight train_set valid_set = (ts, Inl KeyError)" ..
  then show "returned (model_stats_reg mse mae train_set valid_set) = Inl KeyError"
    by (simp add: model_stats_reg_raises)
next
  assume "\<not> (train_set ''w'' = None \<and>
      (train_set ''y'' = None \<or> (\<exists>vs. valid_set = Some vs \<and> vs ''y'' = None)))"
  then have "\<exists>ts hw. default_weight train_set valid_set = (ts, Inr hw)"
    by (auto simp: default_weight_cases split: option.splits)
  then obtain ts hw where dw: "default_weight train_set valid_set = (ts, Inr hw)" by blast
  show "\<exists>ts hw. default_weight train_set valid_set = (ts, Inr hw) \<and>
         returned (model_stats_reg mse mae train_set valid_set) =
           Inr (written (completed (try_block mse mae hw ts valid_set))
                  \<lparr>train = Map.empty, valid = Map.empty\<rparr>) \<and>
         printed (model_stats_reg mse mae train_set valid_set) =
           (case first_failure (try_block mse mae hw ts valid_set) of
              None \<Rightarrow> []
            | Some e \<Rightarrow> [Message ''Stats Failed to run'', Raised e])"
    by (intro exI[of _ ts] exI[of _ hw]) (simp add: dw model_stats_reg_returns[OF dw])
qed

theorem model_stats_reg_exceptions_witness:
  "returned (model_stats_reg (\<lambda>y p. Inr 0) (\<lambda>y p. Inl ValueError)
      [''y'' \<mapsto> [1, 2], ''pred'' \<mapsto> [1, 2]] None) =
     Inr \<lparr>train = [''rmse'' \<mapsto> [Fin 0]], valid = Map.empty\<rparr> \<and>
   printed (model_stats_reg (\<lambda>y p. Inr 0) (\<lambda>y p. Inl ValueError)
      [''y'' \<mapsto> [1, 2], ''pred'' \<mapsto> [1, 2]] None) =
     [Message ''Stats Failed to run'', Raised ValueError] \<and>
   returned (model_stats_reg (\<lambda>y p. Inr 0) (\<lambda>y p. Inr 0) [''pred'' \<mapsto> [1]] (Some [''pred'' \<mapsto> [1]])) =
     Inl KeyError"
proof -
  let ?ts = "[''y'' \<mapsto> [1, 2 :: real], ''pred'' \<mapsto> [1, 2]]"
  let ?ts' = "?ts(''w'' \<mapsto> [1, 1])"
  let ?mse = "\<lambda>(y :: real list) (p :: real list). Inr 0 :: error + real"
  let ?mae = "\<lambda>(y :: real list) (p :: real list). Inl ValueError :: error + real"
  have dw: "default_weight ?ts None = (?ts', Inr True)"
    by (simp add: default_weight_cases)
  have r1: "rmse_of ?mse ?ts' = Inr (Fin 0)"
    by (simp add: rmse_of_def getitem_def)
  have r2: "mae_of ?mae ?ts' = Inl ValueError"
    by (simp add: mae_of_def getitem_def)
  have c: "completed (try_block ?mse ?mae True ?ts' None) = [(Train, ''rmse'', Inr (Fin 0))]"
    by (simp add: try_block_def r1 r2 completed_def succeeded_def)
  have f: "first_failure (try_block ?mse ?mae True ?ts' None) = Some ValueError"
    by (simp add: try_block_def r1 r2 first_failure_def succeeded_def)
  from model_stats_reg_exceptions[of ?ts None ?mse ?mae] dw
  have "returned (model_stats_reg ?mse ?mae ?ts None) =
      Inr (written (completed (try_block ?mse ?mae True ?ts' None)) \<lparr>train = Map.empty, valid = Map.empty\<rparr>)"
    and "printed (model_stats_reg ?mse ?mae ?ts None) =
      (case first_failure (try_block ?mse ?mae True ?ts' None) of
              None \<Rightarrow> []
            | Some e \<Rightarrow> [Message ''Stats Failed to run'', Raised e])"
    by auto
  then have a: "returned (model_stats_reg ?mse ?mae ?ts None) =
      Inr \<lparr>train = [''rmse'' \<mapsto> [Fin 0]], valid = Map.empty\<rparr>"
    and b: "printed (model_stats_reg ?mse ?mae ?ts None) = [Message ''Stats Failed to run'', Raised ValueError]"
    unfolding c f by (simp_all add: written_def)
  have "returned (model_stats_reg (\<lambda>y p. Inr 0) (\<lambda>y p. Inr 0) [''pred'' \<mapsto> [1]] (Some [''pred'' \<mapsto> [1]])) =
     Inl KeyError"
    using model_stats_reg_exceptions[of "[''pred'' \<mapsto> [1]]" "Some [''pred'' \<mapsto> [1]]" "\<lambda>y p. Inr 0" "\<lambda>y p. Inr 0"]
    by simp
  with a b show ?thesis by blast
qed

text \<open>
  The claim as stated, for every input, fails for a train set with neither \<^verbatim>\<open>'w'\<close> nor
  \<^verbatim>\<open>'y'\<close>: the length of \<^verbatim>\<open>train_set['y']\<close> is taken before the \<^verbatim>\<open>try\<close>.
\<close>

theorem model_stats_reg_exceptions_counterexample:
  "returned (model_stats_reg (\<lambda>y p. Inr 0) (\<lambda>y p. Inr 0) [''pred'' \<mapsto> [1]] None) = Inl KeyError"
  by (simp add: model_stats_reg_def default_weight_cases)

section \<open>What the functions leave unchanged\<close>

lemma clamped_copy_frame:
  "clamped_copy h predicted = (t, h') \<Longrightarrow> take (length h) h' = h"
  by (auto simp: clamped_copy_def ndarray_copy_def masked_assign_def)

lemma clamped_copy_value:
  "clamped_copy h predicted = (t, h') \<Longrightarrow> h' ! t = clamp_eps (h ! predicted)"
  by (auto simp: clamped_copy_def ndarray_copy_def masked_assign_def clamp_eps_def)

lemma clamped_copy_old:
  assumes "clamped_copy h predicted = (t, h')" and "a < length h"
  shows "h' ! a = h ! a"
proof -
  have "take (length h) h' ! a = h' ! a"
    using assms(2) by simp
  with clamped_copy_frame[OF assms(1)] show ?thesis by simp
qed

lemma hl_tweedie_df_heap_value:
  assumes "weight < length h" "actual < length h" "predicted < length h"
  shows "fst (hl_tweedie_df_heap Q h weight actual predicted bins phi p) =
         hl_tweedie_df Q (h ! weight) (h ! actual) (h ! predicted) bins phi p"
proof -
  obtain t h' where c: "clamped_copy h predicted = (t, h')" by (cases "clamped_copy h predicted")
  show ?thesis
    using assms
    by (simp add: hl_tweedie_df_heap_def hl_tweedie_df_def c clamped_copy_old[OF c]
        clamped_copy_value[OF c])
qed

lemma deviance_tweedie_heap_value:
  assumes "weight < length h" "actual < length h" "predicted < length h"
  shows "fst (deviance_tweedie_heap tweedie h actual predicted weight p) =
         deviance_tweedie tweedie (h ! actual) (h ! predicted) (h ! weight) p"
proof -
  obtain t h' where c: "clamped_copy h predicted = (t, h')" by (cases "clamped_copy h predicted")
  show ?thesis
    using assms
    by (simp add: deviance_tweedie_heap_def deviance_tweedie_def c clamped_copy_old[OF c]
        clamped_copy_value[OF c])
qed

lemma pearson_chi_sq_scale_estimate_heap_value:
  assumes "weight < length h" "actual < length h" "predicted < length h"
  shows "fst (pearson_chi_sq_scale_estimate_heap h actual weight predicted p tweedie_power) =
         pearson_chi_sq_scale_estimate (h ! actual) (h ! weight) (h ! predicted) p tweedie_power"
proof -
  obtain t h' where c: "clamped_copy h predicted = (t, h')" by (cases "clamped_copy h predicted")
  show ?thesis
    using assms
    by (simp add: pearson_chi_sq_scale_estimate_heap_def pearson_chi_sq_scale_estimate_def c
        clamped_copy_old[OF c] clamped_copy_value[OF c])
qed








end
